theory Spec2Isabelle
  imports Complex_Main
begin

text \<open>
  A model of \<^verbatim>\<open>src/api/typings.ts\<close>, the endpoint that installs a package and answers
  with its type declarations: the query parser, the inclusion predicate of the file
  collector, the typings filter, the response packager and the request handler, each
  function under its own name, followed by what holds of them.
\<close>

section \<open>Strings\<close>

text \<open>
  A JavaScript string is a sequence of UTF-16 code units and \<^verbatim>\<open>length\<close> counts code
  units, so a string is modelled as the list of its code units. A code unit is a natural
  number (below 65536 in every string the program can hold); \<open>js ''abc''\<close> is the string
  of an ASCII literal.
\<close>

type_synonym code_unit = nat
type_synonym jsstring = "code_unit list"

abbreviation ch :: "char \<Rightarrow> code_unit" where
  "ch c \<equiv> of_char c"

abbreviation js :: "string \<Rightarrow> jsstring" where
  "js s \<equiv> map of_char s"

definition startsWith :: "jsstring \<Rightarrow> jsstring \<Rightarrow> bool" where
  "startsWith s p = (take (length p) s = p)"

definition endsWith :: "jsstring \<Rightarrow> jsstring \<Rightarrow> bool" where
  "endsWith s p = (length p \<le> length s \<and> drop (length s - length p) s = p)"

text \<open>\<^verbatim>\<open>s.indexOf(p)\<close>: the first position where \<open>p\<close> occurs in \<open>s\<close>, or -1.\<close>

fun indexOf :: "jsstring \<Rightarrow> jsstring \<Rightarrow> int" where
  "indexOf [] p = (if p = [] then 0 else - 1)"
| "indexOf (c # cs) p =
     (if startsWith (c # cs) p then 0
      else (let i = indexOf cs p in if i < 0 then - 1 else i + 1))"

text \<open>\<^verbatim>\<open>xs.indexOf(x)\<close> on an array.\<close>

fun Array_indexOf :: "'a list \<Rightarrow> 'a \<Rightarrow> int" where
  "Array_indexOf [] x = - 1"
| "Array_indexOf (y # ys) x =
     (if y = x then 0
      else (let i = Array_indexOf ys x in if i < 0 then - 1 else i + 1))"

text \<open>\<^verbatim>\<open>s.split(sep)\<close> for a separator of one code unit: never the empty array.\<close>

fun String_split :: "code_unit \<Rightarrow> jsstring \<Rightarrow> jsstring list" where
  "String_split sep [] = [[]]"
| "String_split sep (c # cs) =
     (if c = sep then [] # String_split sep cs
      else (case String_split sep cs of
              [] \<Rightarrow> [[c]]
            | p # ps \<Rightarrow> (c # p) # ps))"

text \<open>
  \<^verbatim>\<open>s.replace(p, r)\<close> with a string pattern: the first occurrence of \<open>p\<close> is replaced.
  The program only passes the replacement \<^verbatim>\<open>""\<close>, which has no \<^verbatim>\<open>$\<close> pattern.
\<close>

fun String_replace :: "jsstring \<Rightarrow> jsstring \<Rightarrow> jsstring \<Rightarrow> jsstring" where
  "String_replace [] p r = (if p = [] then r else [])"
| "String_replace (c # cs) p r =
     (if startsWith (c # cs) p then r @ drop (length p) (c # cs)
      else c # String_replace cs p r)"

text \<open>\<^verbatim>\<open>xs.shift()\<close>: the first element (\<^verbatim>\<open>undefined\<close> on the empty array) and the rest.\<close>

definition shift :: "'a list \<Rightarrow> 'a option \<times> 'a list" where
  "shift xs = (case xs of [] \<Rightarrow> (None, []) | x # r \<Rightarrow> (Some x, r))"

text \<open>A string or \<^verbatim>\<open>undefined\<close> inside a template literal or under \<^verbatim>\<open>+\<close> with a string.\<close>

definition toString :: "jsstring option \<Rightarrow> jsstring" where
  "toString v = (case v of None \<Rightarrow> js ''undefined'' | Some s \<Rightarrow> s)"

text \<open>The exceptions of the platform that the program can meet.\<close>

datatype exn = URIError | SyntaxError | TypeError

section \<open>The query parser\<close>

text \<open>
  \<^verbatim>\<open>const removeVersion = (depQuery) => depQuery.replace(/(?<!^)@.*/, "")\<close>.
  The pattern matches at the first \<^verbatim>\<open>@\<close> that is not at position 0 and runs over every
  code unit that is not a line terminator (\<^verbatim>\<open>.\<close> stops at one); the match is removed.
\<close>

definition lineTerminator :: "code_unit \<Rightarrow> bool" where
  "lineTerminator c = (c = 0x0A \<or> c = 0x0D \<or> c = 0x2028 \<or> c = 0x2029)"

fun removeVersion :: "jsstring \<Rightarrow> jsstring" where
  "removeVersion [] = []"
| "removeVersion (c # cs) =
     c # takeWhile (\<lambda>x. x \<noteq> ch CHR ''@'') cs
       @ dropWhile (\<lambda>x. \<not> lineTerminator x) (dropWhile (\<lambda>x. x \<noteq> ch CHR ''@'') cs)"

definition isDigit :: "code_unit \<Rightarrow> bool" where
  "isDigit c = (48 \<le> c \<and> c \<le> 57)"

text \<open>\<^verbatim>\<open>parts[0] && /^\d/.test(parts[0])\<close>\<close>

definition startsWithDigit :: "jsstring list \<Rightarrow> bool" where
  "startsWithDigit parts =
     (case parts of [] \<Rightarrow> False | p # _ \<Rightarrow> (case p of [] \<Rightarrow> False | c # _ \<Rightarrow> isDigit c))"

definition getDependencyName :: "jsstring \<Rightarrow> jsstring" where
  "getDependencyName path =
     (let (name0, parts0) = shift (String_split (ch CHR ''/'') (removeVersion path));
          (name1, parts1) =
             (if startsWith path (js ''@'')
              then (let (seg, rest) = shift parts0
                    in (Some (toString name0 @ js ''/'' @ toString seg), rest))
              else (name0, parts0));
          (name2, parts2) =
             (if startsWithDigit parts1
              then (let (seg, rest) = shift parts1
                    in (Some (toString name1 @ js ''/'' @ toString seg), rest))
              else (name1, parts1))
      in (case name2 of None \<Rightarrow> [] | Some n \<Rightarrow> n))"

subsection \<open>\<^verbatim>\<open>decodeURIComponent\<close>\<close>

text \<open>
  The platform's \<^verbatim>\<open>decodeURIComponent\<close>: every \<^verbatim>\<open>%XX\<close> is an octet, the octets are
  read as UTF-8 and the code points are written as UTF-16. It throws \<^verbatim>\<open>URIError\<close> on a
  \<^verbatim>\<open>%\<close> that two hexadecimal digits do not follow and on octets that are not the UTF-8
  encoding of a code point.
\<close>

datatype uri_item = Lit code_unit | Octet nat

definition isHex :: "code_unit \<Rightarrow> bool" where
  "isHex c = ((48 \<le> c \<and> c \<le> 57) \<or> (65 \<le> c \<and> c \<le> 70) \<or> (97 \<le> c \<and> c \<le> 102))"

definition hexVal :: "code_unit \<Rightarrow> nat" where
  "hexVal c = (if c \<le> 57 then c - 48 else if c \<le> 70 then c - 55 else c - 87)"

fun uriItems :: "jsstring \<Rightarrow> uri_item list option" where
  "uriItems [] = Some []"
| "uriItems (c # cs) =
     (if c \<noteq> ch CHR ''%'' then map_option ((#) (Lit c)) (uriItems cs)
      else (case cs of
              h # l # rest \<Rightarrow>
                if isHex h \<and> isHex l
                then map_option ((#) (Octet (16 * hexVal h + hexVal l))) (uriItems rest)
                else None
            | _ \<Rightarrow> None))"

text \<open>The number of leading 1 bits of an octet; 5 stands for every number above 4.\<close>

definition leadingOnes :: "nat \<Rightarrow> nat" where
  "leadingOnes b =
     (if b < 128 then 0 else if b < 192 then 1 else if b < 224 then 2
      else if b < 240 then 3 else if b < 248 then 4 else 5)"

definition isContinuation :: "uri_item \<Rightarrow> bool" where
  "isContinuation it = (case it of Lit _ \<Rightarrow> False | Octet b \<Rightarrow> 128 \<le> b \<and> b < 192)"

definition octetOf :: "uri_item \<Rightarrow> nat" where
  "octetOf it = (case it of Lit c \<Rightarrow> c | Octet b \<Rightarrow> b)"

definition codePoint :: "nat \<Rightarrow> nat \<Rightarrow> nat list \<Rightarrow> nat" where
  "codePoint n b cont = foldl (\<lambda>v c. v * 64 + c mod 64) (b mod 2 ^ (7 - n)) cont"

definition validCodePoint :: "nat \<Rightarrow> nat \<Rightarrow> bool" where
  "validCodePoint n v =
     ((if n = 2 then 0x80 else if n = 3 then 0x800 else 0x10000) \<le> v
      \<and> \<not> (0xD800 \<le> v \<and> v \<le> 0xDFFF) \<and> v \<le> 0x10FFFF)"

definition utf16 :: "nat \<Rightarrow> jsstring" where
  "utf16 v =
     (if v < 0x10000 then [v]
      else [0xD800 + (v - 0x10000) div 1024, 0xDC00 + (v - 0x10000) mod 1024])"

function decodeItems :: "uri_item list \<Rightarrow> exn + jsstring" where
  "decodeItems [] = Inr []"
| "decodeItems (Lit c # its) = map_sum id ((#) c) (decodeItems its)"
| "decodeItems (Octet b # its) =
     (let n = leadingOnes b in
      if n = 0 then map_sum id ((#) b) (decodeItems its)
      else if n = 1 \<or> 4 < n then Inl URIError
      else if length its < n - 1 \<or> \<not> list_all isContinuation (take (n - 1) its) then Inl URIError
      else (let v = codePoint n b (map octetOf (take (n - 1) its)) in
            if validCodePoint n v
            then map_sum id ((@) (utf16 v)) (decodeItems (drop (n - 1) its))
            else Inl URIError))"
  by pat_completeness auto
termination
  by (relation "measure length") auto

definition decodeURIComponent :: "jsstring \<Rightarrow> exn + jsstring" where
  "decodeURIComponent s =
     (case uriItems s of None \<Rightarrow> Inl URIError | Some its \<Rightarrow> decodeItems its)"

record DependencySpec =
  dependency :: jsstring
  version :: jsstring

definition getDependencyAndVersion :: "jsstring \<Rightarrow> exn + DependencySpec" where
  "getDependencyAndVersion depString =
     (if (startsWith depString (js ''@'') \<and> length (String_split (ch CHR ''@'') depString) = 2)
         \<or> length (String_split (ch CHR ''@'') depString) = 1
      then Inr \<lparr>dependency = depString, version = js ''latest''\<rparr>
      else (let name = getDependencyName depString in
            case decodeURIComponent (String_replace depString (name @ js ''@'') []) of
              Inl e \<Rightarrow> Inl e
            | Inr ver \<Rightarrow> Inr \<lparr>dependency = name, version = ver\<rparr>))"

section \<open>The file-collection inclusion predicate\<close>

definition TYPE_ONLY_DIRECTORIES :: "jsstring list" where
  "TYPE_ONLY_DIRECTORIES = [js ''src'']"

definition isFileValid :: "jsstring \<Rightarrow> bool" where
  "isFileValid path =
     (let isTypeOnly = list_ex (\<lambda>dir. - 1 < indexOf path (js ''/'' @ dir @ js ''/'')) TYPE_ONLY_DIRECTORIES;
          requiredEnding = (if isTypeOnly then js ''.d.ts'' else js ''.ts'')
      in if endsWith path requiredEnding then True
         else if endsWith path (js ''package.json'') then True
         else False)"

section \<open>Objects as ordered mappings\<close>

text \<open>
  \<^verbatim>\<open>IFiles\<close> and \<^verbatim>\<open>IModuleResult\<close> are objects used as mappings from a path to an entry.
  An object is modelled as the list of its properties in the order \<^verbatim>\<open>Object.keys\<close> and
  \<^verbatim>\<open>JSON.stringify\<close> enumerate them, with no key twice. The keys are file paths (no key
  is an array index, which JavaScript would enumerate first), so a new key goes last.
\<close>

definition Object_keys :: "('k \<times> 'v) list \<Rightarrow> 'k list" where
  "Object_keys obj = map fst obj"

text \<open>\<^verbatim>\<open>obj[k] = v\<close>\<close>

fun obj_set :: "('k \<times> 'v) list \<Rightarrow> 'k \<Rightarrow> 'v \<Rightarrow> ('k \<times> 'v) list" where
  "obj_set [] k v = [(k, v)]"
| "obj_set ((k', v') # ps) k v =
     (if k' = k then (k', v) # ps else (k', v') # obj_set ps k v)"

record FileEntry =
  code :: jsstring

type_synonym IFiles = "(jsstring \<times> FileEntry) list"

section \<open>Paths\<close>

text \<open>
  \<^verbatim>\<open>path.join\<close> and \<^verbatim>\<open>path.dirname\<close> of the platform, on POSIX paths. \<^verbatim>\<open>join\<close> puts
  \<^verbatim>\<open>/\<close> between its non-empty arguments and normalises: empty and \<^verbatim>\<open>.\<close> segments go, a
  \<^verbatim>\<open>..\<close> removes the segment before it.
\<close>

fun joinWith :: "jsstring \<Rightarrow> jsstring list \<Rightarrow> jsstring" where
  "joinWith sep [] = []"
| "joinWith sep [x] = x"
| "joinWith sep (x # y # ys) = x @ sep @ joinWith sep (y # ys)"

fun normalizeSegments :: "bool \<Rightarrow> jsstring list \<Rightarrow> jsstring list \<Rightarrow> jsstring list" where
  "normalizeSegments allowAboveRoot res [] = res"
| "normalizeSegments allowAboveRoot res (seg # segs) =
     (if seg = [] \<or> seg = js ''.'' then normalizeSegments allowAboveRoot res segs
      else if seg = js ''..'' then
        (if res \<noteq> [] \<and> last res \<noteq> js ''..''
         then normalizeSegments allowAboveRoot (butlast res) segs
         else if allowAboveRoot then normalizeSegments allowAboveRoot (res @ [js ''..'']) segs
         else normalizeSegments allowAboveRoot res segs)
      else normalizeSegments allowAboveRoot (res @ [seg]) segs)"

definition path_normalize :: "jsstring \<Rightarrow> jsstring" where
  "path_normalize p =
     (case p of
        [] \<Rightarrow> js ''.''
      | c # _ \<Rightarrow>
          (let isAbsolute = (c = ch CHR ''/'');
               trailingSeparator = (last p = ch CHR ''/'');
               body = joinWith (js ''/'')
                        (normalizeSegments (\<not> isAbsolute) [] (String_split (ch CHR ''/'') p))
           in if body = [] then
                (if isAbsolute then js ''/'' else if trailingSeparator then js ''./'' else js ''.'')
              else (if isAbsolute then js ''/'' else []) @ body
                     @ (if trailingSeparator then js ''/'' else [])))"

definition path_join :: "jsstring \<Rightarrow> jsstring \<Rightarrow> jsstring" where
  "path_join a b =
     (let args = filter (\<lambda>x. x \<noteq> []) [a, b]
      in if args = [] then js ''.'' else path_normalize (joinWith (js ''/'') args))"

text \<open>
  \<^verbatim>\<open>path.dirname\<close> scans from the end down to position 1: it skips the trailing
  \<^verbatim>\<open>/\<close>, then the last segment, and cuts at the \<^verbatim>\<open>/\<close> before it.
\<close>

definition path_dirname :: "jsstring \<Rightarrow> jsstring" where
  "path_dirname p =
     (case p of
        [] \<Rightarrow> js ''.''
      | c # t \<Rightarrow>
          (let hasRoot = (c = ch CHR ''/'');
               upToSlash = dropWhile (\<lambda>x. x \<noteq> ch CHR ''/'')
                             (dropWhile (\<lambda>x. x = ch CHR ''/'') (rev t));
               cut = length upToSlash
           in if upToSlash = [] then (if hasRoot then js ''/'' else js ''.'')
              else if hasRoot \<and> cut = 1 then js ''//''
              else take cut p))"

section \<open>\<^verbatim>\<open>JSON.parse\<close>\<close>

text \<open>
  The platform's \<^verbatim>\<open>JSON.parse\<close>, as a lexer that reads one code unit at a time and a
  parser that reads one token at a time with a stack of the open arrays and objects. A
  number keeps its sign, its digits and its decimal exponent.
\<close>

datatype json =
    JNull
  | JBool bool
  | JNumber bool nat int
  | JString jsstring
  | JArray "json list"
  | JObject "(jsstring \<times> json) list"

datatype token = TLBrace | TRBrace | TLBracket | TRBracket | TColon | TComma | TScalar json

datatype numstate = NMinus | NZero | NInt | NDot | NFrac | NExp | NExpSign | NExpDigits

record numacc =
  negative :: bool
  mantissa :: nat
  fracDigits :: nat
  expNegative :: bool
  exponent :: nat

datatype lexstate =
    LStart
  | LString jsstring
  | LEscape jsstring
  | LUnicode jsstring "nat list"
  | LLiteral jsstring json
  | LNumber numstate numacc

definition numberToken :: "numacc \<Rightarrow> token" where
  "numberToken a =
     TScalar (JNumber (negative a) (mantissa a)
       ((if expNegative a then - int (exponent a) else int (exponent a)) - int (fracDigits a)))"

definition isWhitespace :: "code_unit \<Rightarrow> bool" where
  "isWhitespace c = (c = 0x20 \<or> c = 0x09 \<or> c = 0x0A \<or> c = 0x0D)"

definition startStep :: "code_unit \<Rightarrow> (token list \<times> lexstate) option" where
  "startStep c =
     (let acc0 = \<lparr>negative = False, mantissa = 0, fracDigits = 0, expNegative = False, exponent = 0\<rparr>
      in if isWhitespace c then Some ([], LStart)
      else if c = ch CHR ''{'' then Some ([TLBrace], LStart)
      else if c = ch CHR ''}'' then Some ([TRBrace], LStart)
      else if c = ch CHR ''['' then Some ([TLBracket], LStart)
      else if c = ch CHR '']'' then Some ([TRBracket], LStart)
      else if c = ch CHR '':'' then Some ([TColon], LStart)
      else if c = ch CHR '','' then Some ([TComma], LStart)
      else if c = 0x22 then Some ([], LString [])
      else if c = ch CHR ''-'' then Some ([], LNumber NMinus (acc0\<lparr>negative := True\<rparr>))
      else if c = ch CHR ''0'' then Some ([], LNumber NZero acc0)
      else if isDigit c then Some ([], LNumber NInt (acc0\<lparr>mantissa := c - 48\<rparr>))
      else if c = ch CHR ''t'' then Some ([], LLiteral (js ''rue'') (JBool True))
      else if c = ch CHR ''f'' then Some ([], LLiteral (js ''alse'') (JBool False))
      else if c = ch CHR ''n'' then Some ([], LLiteral (js ''ull'') JNull)
      else None)"

text \<open>A number ends at the first code unit that cannot continue it; that unit starts the next token.\<close>

definition finishNumber :: "numacc \<Rightarrow> code_unit \<Rightarrow> (token list \<times> lexstate) option" where
  "finishNumber a c =
     (case startStep c of None \<Rightarrow> None | Some (ts, st) \<Rightarrow> Some (numberToken a # ts, st))"

definition isExponentMark :: "code_unit \<Rightarrow> bool" where
  "isExponentMark c = (c = ch CHR ''e'' \<or> c = ch CHR ''E'')"

definition numberStep :: "numstate \<Rightarrow> numacc \<Rightarrow> code_unit \<Rightarrow> (token list \<times> lexstate) option" where
  "numberStep ns a c =
     (case ns of
        NMinus \<Rightarrow>
          if c = ch CHR ''0'' then Some ([], LNumber NZero a)
          else if isDigit c then Some ([], LNumber NInt (a\<lparr>mantissa := c - 48\<rparr>))
          else None
      | NZero \<Rightarrow>
          if c = ch CHR ''.'' then Some ([], LNumber NDot a)
          else if isExponentMark c then Some ([], LNumber NExp a)
          else finishNumber a c
      | NInt \<Rightarrow>
          if isDigit c then Some ([], LNumber NInt (a\<lparr>mantissa := mantissa a * 10 + (c - 48)\<rparr>))
          else if c = ch CHR ''.'' then Some ([], LNumber NDot a)
          else if isExponentMark c then Some ([], LNumber NExp a)
          else finishNumber a c
      | NDot \<Rightarrow>
          if isDigit c
          then Some ([], LNumber NFrac
                 (a\<lparr>mantissa := mantissa a * 10 + (c - 48), fracDigits := fracDigits a + 1\<rparr>))
          else None
      | NFrac \<Rightarrow>
          if isDigit c
          then Some ([], LNumber NFrac
                 (a\<lparr>mantissa := mantissa a * 10 + (c - 48), fracDigits := fracDigits a + 1\<rparr>))
          else if isExponentMark c then Some ([], LNumber NExp a)
          else finishNumber a c
      | NExp \<Rightarrow>
          if c = ch CHR ''+'' then Some ([], LNumber NExpSign a)
          else if c = ch CHR ''-'' then Some ([], LNumber NExpSign (a\<lparr>expNegative := True\<rparr>))
          else if isDigit c then Some ([], LNumber NExpDigits (a\<lparr>exponent := c - 48\<rparr>))
          else None
      | NExpSign \<Rightarrow>
          if isDigit c then Some ([], LNumber NExpDigits (a\<lparr>exponent := c - 48\<rparr>))
          else None
      | NExpDigits \<Rightarrow>
          if isDigit c
          then Some ([], LNumber NExpDigits (a\<lparr>exponent := exponent a * 10 + (c - 48)\<rparr>))
          else finishNumber a c)"

definition escapeStep :: "jsstring \<Rightarrow> code_unit \<Rightarrow> (token list \<times> lexstate) option" where
  "escapeStep acc c =
     (if c = 0x22 then Some ([], LString (acc @ [0x22]))
      else if c = 0x5C then Some ([], LString (acc @ [0x5C]))
      else if c = ch CHR ''/'' then Some ([], LString (acc @ [0x2F]))
      else if c = ch CHR ''b'' then Some ([], LString (acc @ [0x08]))
      else if c = ch CHR ''f'' then Some ([], LString (acc @ [0x0C]))
      else if c = ch CHR ''n'' then Some ([], LString (acc @ [0x0A]))
      else if c = ch CHR ''r'' then Some ([], LString (acc @ [0x0D]))
      else if c = ch CHR ''t'' then Some ([], LString (acc @ [0x09]))
      else if c = ch CHR ''u'' then Some ([], LUnicode acc [])
      else None)"

definition lexStep :: "lexstate \<Rightarrow> code_unit \<Rightarrow> (token list \<times> lexstate) option" where
  "lexStep st c =
     (case st of
        LStart \<Rightarrow> startStep c
      | LString acc \<Rightarrow>
          if c = 0x22 then Some ([TScalar (JString acc)], LStart)
          else if c = 0x5C then Some ([], LEscape acc)
          else if c < 0x20 then None
          else Some ([], LString (acc @ [c]))
      | LEscape acc \<Rightarrow> escapeStep acc c
      | LUnicode acc ds \<Rightarrow>
          if \<not> isHex c then None
          else if length ds = 3
          then Some ([], LString (acc @ [foldl (\<lambda>v d. v * 16 + d) 0 (ds @ [hexVal c])]))
          else Some ([], LUnicode acc (ds @ [hexVal c]))
      | LLiteral rest v \<Rightarrow>
          (case rest of
             [] \<Rightarrow> None
           | x # xs \<Rightarrow>
               if c \<noteq> x then None
               else if xs = [] then Some ([TScalar v], LStart)
               else Some ([], LLiteral xs v))
      | LNumber ns a \<Rightarrow> numberStep ns a c)"

definition lexEnd :: "lexstate \<Rightarrow> token list option" where
  "lexEnd st =
     (case st of
        LStart \<Rightarrow> Some []
      | LNumber ns a \<Rightarrow>
          if ns = NZero \<or> ns = NInt \<or> ns = NFrac \<or> ns = NExpDigits then Some [numberToken a]
          else None
      | _ \<Rightarrow> None)"

fun lexer :: "lexstate \<Rightarrow> jsstring \<Rightarrow> token list option" where
  "lexer st [] = lexEnd st"
| "lexer st (c # cs) =
     (case lexStep st c of
        None \<Rightarrow> None
      | Some (ts, st') \<Rightarrow> map_option ((@) ts) (lexer st' cs))"

text \<open>
  The parser. A frame is an open array with its elements, an open object with its
  members, or an open object whose next member has its key.
\<close>

datatype frame =
    FArray "json list"
  | FObject "(jsstring \<times> json) list"
  | FMember "(jsstring \<times> json) list" jsstring

datatype expect =
    EValue | EValueOrClose | EKeyOrClose | EKey | EColon | ECommaOrClose | EEnd json

text \<open>A value is complete: it is the result, an element, or the value of a member.\<close>

definition complete :: "json \<Rightarrow> frame list \<Rightarrow> (expect \<times> frame list) option" where
  "complete v stack =
     (case stack of
        [] \<Rightarrow> Some (EEnd v, [])
      | FArray es # st \<Rightarrow> Some (ECommaOrClose, FArray (es @ [v]) # st)
      | FMember ms k # st \<Rightarrow> Some (ECommaOrClose, FObject (obj_set ms k v) # st)
      | FObject ms # st \<Rightarrow> None)"

definition closeArray :: "frame list \<Rightarrow> (expect \<times> frame list) option" where
  "closeArray stack =
     (case stack of FArray es # st \<Rightarrow> complete (JArray es) st | _ \<Rightarrow> None)"

definition closeObject :: "frame list \<Rightarrow> (expect \<times> frame list) option" where
  "closeObject stack =
     (case stack of FObject ms # st \<Rightarrow> complete (JObject ms) st | _ \<Rightarrow> None)"

definition valueStep :: "bool \<Rightarrow> frame list \<Rightarrow> token \<Rightarrow> (expect \<times> frame list) option" where
  "valueStep mayClose stack t =
     (case t of
        TScalar v \<Rightarrow> complete v stack
      | TLBracket \<Rightarrow> Some (EValueOrClose, FArray [] # stack)
      | TLBrace \<Rightarrow> Some (EKeyOrClose, FObject [] # stack)
      | TRBracket \<Rightarrow> if mayClose then closeArray stack else None
      | _ \<Rightarrow> None)"

definition keyStep :: "bool \<Rightarrow> frame list \<Rightarrow> token \<Rightarrow> (expect \<times> frame list) option" where
  "keyStep mayClose stack t =
     (case t of
        TScalar (JString k) \<Rightarrow>
          (case stack of FObject ms # st \<Rightarrow> Some (EColon, FMember ms k # st) | _ \<Rightarrow> None)
      | TRBrace \<Rightarrow> if mayClose then closeObject stack else None
      | _ \<Rightarrow> None)"

definition parseStep :: "expect \<Rightarrow> frame list \<Rightarrow> token \<Rightarrow> (expect \<times> frame list) option" where
  "parseStep e stack t =
     (case e of
        EValue \<Rightarrow> valueStep False stack t
      | EValueOrClose \<Rightarrow> valueStep True stack t
      | EKeyOrClose \<Rightarrow> keyStep True stack t
      | EKey \<Rightarrow> keyStep False stack t
      | EColon \<Rightarrow> (case t of TColon \<Rightarrow> Some (EValue, stack) | _ \<Rightarrow> None)
      | ECommaOrClose \<Rightarrow>
          (case t of
             TComma \<Rightarrow>
               (case stack of
                  FArray es # st \<Rightarrow> Some (EValue, stack)
                | FObject ms # st \<Rightarrow> Some (EKey, stack)
                | _ \<Rightarrow> None)
           | TRBracket \<Rightarrow> closeArray stack
           | TRBrace \<Rightarrow> closeObject stack
           | _ \<Rightarrow> None)
      | EEnd v \<Rightarrow> None)"

fun parseTokens :: "expect \<Rightarrow> frame list \<Rightarrow> token list \<Rightarrow> json option" where
  "parseTokens e stack [] = (case e of EEnd v \<Rightarrow> Some v | _ \<Rightarrow> None)"
| "parseTokens e stack (t # ts) =
     (case parseStep e stack t of
        None \<Rightarrow> None
      | Some (e', stack') \<Rightarrow> parseTokens e' stack' ts)"

definition JSON_parse :: "jsstring \<Rightarrow> exn + json" where
  "JSON_parse s =
     (case lexer LStart s of
        None \<Rightarrow> Inl SyntaxError
      | Some ts \<Rightarrow>
          (case parseTokens EValue [] ts of None \<Rightarrow> Inl SyntaxError | Some v \<Rightarrow> Inr v))"

text \<open>
  \<^verbatim>\<open>parsed.typings\<close>: reading a property of \<^verbatim>\<open>null\<close> throws \<^verbatim>\<open>TypeError\<close>; an object has
  the members it was parsed with; a number, a string, a boolean and an array have no
  property of these names, and the answer is \<^verbatim>\<open>undefined\<close>.
\<close>

definition getProperty :: "json \<Rightarrow> jsstring \<Rightarrow> exn + json option" where
  "getProperty v k =
     (case v of
        JNull \<Rightarrow> Inl TypeError
      | JObject ms \<Rightarrow> Inr (map_of ms k)
      | _ \<Rightarrow> Inr None)"

text \<open>
  A number is falsy when the double it is read as is zero: when its value is at most
  \<open>2\<^sup>-\<^sup>1\<^sup>0\<^sup>7\<^sup>5\<close>, half the least positive double.
\<close>

definition numberIsZero :: "nat \<Rightarrow> int \<Rightarrow> bool" where
  "numberIsZero m e =
     ((if 0 \<le> e then rat_of_nat m * 10 ^ nat e else rat_of_nat m / 10 ^ nat (- e))
        \<le> 1 / 2 ^ 1075)"

definition truthy :: "json option \<Rightarrow> bool" where
  "truthy v =
     (case v of
        None \<Rightarrow> False
      | Some JNull \<Rightarrow> False
      | Some (JBool b) \<Rightarrow> b
      | Some (JNumber s m e) \<Rightarrow> \<not> numberIsZero m e
      | Some (JString s) \<Rightarrow> s \<noteq> []
      | Some (JArray es) \<Rightarrow> True
      | Some (JObject ms) \<Rightarrow> True)"

section \<open>The typings filter\<close>

text \<open>
  The \<^verbatim>\<open>try\<close> block of \<^verbatim>\<open>cleanFiles\<close>: true when it reaches \<^verbatim>\<open>return true\<close>, false when
  \<^verbatim>\<open>parsed.typings || parsed.types\<close> is falsy or an exception was caught.
\<close>

definition hasTypings :: "jsstring \<Rightarrow> bool" where
  "hasTypings content =
     (case JSON_parse content of
        Inl e \<Rightarrow> False
      | Inr parsed \<Rightarrow>
          (case getProperty parsed (js ''typings'') of
             Inl e \<Rightarrow> False
           | Inr a \<Rightarrow>
               if truthy a then True
               else (case getProperty parsed (js ''types'') of
                       Inl e \<Rightarrow> False
                     | Inr b \<Rightarrow> truthy b)))"

text \<open>The callback of \<^verbatim>\<open>paths.filter\<close>.\<close>

definition validDependency :: "IFiles \<Rightarrow> jsstring \<Rightarrow> jsstring \<Rightarrow> bool" where
  "validDependency files rootPkgJSON checkedPath =
     (if checkedPath = rootPkgJSON then True
      else if endsWith checkedPath (js ''/package.json'') then
        (if (case map_of files checkedPath of None \<Rightarrow> False | Some entry \<Rightarrow> hasTypings (code entry))
         then True
         else list_ex (\<lambda>p. startsWith p (path_dirname checkedPath) \<and> endsWith p (js ''.ts''))
                (Object_keys files))
      else False)"

text \<open>
  \<^verbatim>\<open>cleanFiles\<close>. Every path of the second loop is a key of \<open>files\<close>, so the lookup
  \<^verbatim>\<open>files[p]\<close> finds its entry.
\<close>

definition cleanFiles :: "IFiles \<Rightarrow> jsstring \<Rightarrow> IFiles" where
  "cleanFiles files rootPath =
     (let paths = Object_keys files;
          rootPkgJSON = path_join rootPath (js ''package.json'');
          validDependencies = filter (validDependency files rootPkgJSON) paths
      in fold (\<lambda>p newFiles.
                 if endsWith p (js ''.ts'') \<or> - 1 < Array_indexOf validDependencies p
                 then (case map_of files p of
                         None \<Rightarrow> newFiles
                       | Some entry \<Rightarrow> obj_set newFiles p entry)
                 else newFiles)
           paths [])"

text \<open>The condition of the second loop, for a key of \<open>files\<close>.\<close>

definition kept :: "IFiles \<Rightarrow> jsstring \<Rightarrow> jsstring \<Rightarrow> bool" where
  "kept fs rootPath p =
     (endsWith p (js ''.ts'') \<or> validDependency fs (path_join rootPath (js ''package.json'')) p)"

section \<open>\<^verbatim>\<open>JSON.stringify\<close>\<close>

text \<open>
  The platform's \<^verbatim>\<open>JSON.stringify\<close>, on the shapes the program passes to it. In a
  string the quote, the backslash and the code units below \<open>0x20\<close> are escaped, and so is a
  surrogate that is not part of a pair; every other code unit stands for itself.
\<close>

definition hexDigit :: "nat \<Rightarrow> code_unit" where
  "hexDigit d = (if d < 10 then 48 + d else 87 + d)"

definition unicodeEscape :: "code_unit \<Rightarrow> jsstring" where
  "unicodeEscape c =
     [0x5C, ch CHR ''u'', hexDigit (c div 4096 mod 16), hexDigit (c div 256 mod 16),
      hexDigit (c div 16 mod 16), hexDigit (c mod 16)]"

definition escapeUnit :: "code_unit \<Rightarrow> jsstring" where
  "escapeUnit c =
     (if c = 0x22 then [0x5C, 0x22]
      else if c = 0x5C then [0x5C, 0x5C]
      else if c = 0x08 then [0x5C, ch CHR ''b'']
      else if c = 0x0C then [0x5C, ch CHR ''f'']
      else if c = 0x0A then [0x5C, ch CHR ''n'']
      else if c = 0x0D then [0x5C, ch CHR ''r'']
      else if c = 0x09 then [0x5C, ch CHR ''t'']
      else if c < 0x20 then unicodeEscape c
      else [c])"

definition isLeadSurrogate :: "code_unit \<Rightarrow> bool" where
  "isLeadSurrogate c = (0xD800 \<le> c \<and> c \<le> 0xDBFF)"

definition isTrailSurrogate :: "code_unit \<Rightarrow> bool" where
  "isTrailSurrogate c = (0xDC00 \<le> c \<and> c \<le> 0xDFFF)"

fun quoteUnits :: "jsstring \<Rightarrow> jsstring" where
  "quoteUnits [] = []"
| "quoteUnits (c # cs) =
     (if isLeadSurrogate c then
        (case cs of
           [] \<Rightarrow> unicodeEscape c
         | d # ds \<Rightarrow>
             if isTrailSurrogate d then c # d # quoteUnits ds
             else unicodeEscape c @ quoteUnits cs)
      else if isTrailSurrogate c then unicodeEscape c @ quoteUnits cs
      else escapeUnit c @ quoteUnits cs)"

text \<open>Code units that stand for themselves (a sufficient condition).\<close>

definition plainUnit :: "code_unit \<Rightarrow> bool" where
  "plainUnit c = (0x20 \<le> c \<and> c \<noteq> 0x22 \<and> c \<noteq> 0x5C \<and> c < 0xD800)"

definition stringify_string :: "jsstring \<Rightarrow> jsstring" where
  "stringify_string s = 0x22 # quoteUnits s @ [0x22]"

text \<open>A non-negative integer in decimal.\<close>

function decimal :: "nat \<Rightarrow> jsstring" where
  "decimal n = (if n < 10 then [48 + n] else decimal (n div 10) @ [48 + n mod 10])"
  by pat_completeness auto
termination
  by (relation "measure id") auto

declare decimal.simps [simp del]

record ModuleEntry =
  module :: FileEntry

type_synonym IModuleResult = "(jsstring \<times> ModuleEntry) list"

definition stringify_FileEntry :: "FileEntry \<Rightarrow> jsstring" where
  "stringify_FileEntry e = js ''{\"code\":'' @ stringify_string (code e) @ js ''}''"

definition stringify_ModuleEntry :: "ModuleEntry \<Rightarrow> jsstring" where
  "stringify_ModuleEntry m = js ''{\"module\":'' @ stringify_FileEntry (module m) @ js ''}''"

text \<open>\<^verbatim>\<open>JSON.stringify(files)\<close> for an \<^verbatim>\<open>IModuleResult\<close>.\<close>

definition stringify_files :: "IModuleResult \<Rightarrow> jsstring" where
  "stringify_files files =
     js ''{''
     @ joinWith (js '','')
         (map (\<lambda>(k, m). stringify_string k @ js '':'' @ stringify_ModuleEntry m) files)
     @ js ''}''"

text \<open>
  \<^verbatim>\<open>JSON.stringify({status: "ok", files, droppedFileCount})\<close>: a property whose value is
  \<^verbatim>\<open>undefined\<close> is left out.
\<close>

definition stringify_ok :: "IModuleResult \<Rightarrow> nat option \<Rightarrow> jsstring" where
  "stringify_ok files dropped =
     js ''{\"status\":\"ok\",\"files\":'' @ stringify_files files
     @ (case dropped of None \<Rightarrow> [] | Some n \<Rightarrow> js '',\"droppedFileCount\":'' @ decimal n)
     @ js ''}''"

section \<open>The response packager\<close>

text \<open>
  \<^verbatim>\<open>const MAX_RES_SIZE = 5.8 * 1024 * 1024\<close>, that is 6081740.8; as a double it is a little
  below, and still above 6081740, so a length is below it exactly when it is at most
  6081740.
\<close>

definition MAX_RES_SIZE :: rat where
  "MAX_RES_SIZE = 58 / 10 * 1024 * 1024"

text \<open>
  The \<^verbatim>\<open>while\<close> loop of \<^verbatim>\<open>dropFiles\<close>. Its body assigns
  \<^verbatim>\<open>result[paths[index]] = files[paths[index]]\<close> and nothing else: \<^verbatim>\<open>index\<close> is never
  changed. The loop may run forever, which is the value \<open>None\<close>. In the body
  \<open>index < length paths\<close> holds, and \<open>paths ! index\<close> is a key of \<open>files\<close>.
\<close>

partial_function (option) dropFiles_loop ::
  "IModuleResult \<Rightarrow> jsstring list \<Rightarrow> IModuleResult \<Rightarrow> nat \<Rightarrow> (IModuleResult \<times> nat) option"
where
  "dropFiles_loop files paths result index =
     (if rat_of_nat (length (stringify_files result)) < MAX_RES_SIZE \<and> index < length paths
      then dropFiles_loop files paths
             (case map_of files (paths ! index) of
                None \<Rightarrow> result
              | Some entry \<Rightarrow> obj_set result (paths ! index) entry)
             index
      else Some (result, index))"

text \<open>
  A state of the loop in which the body runs and changes nothing: the result is below the
  ceiling, the index is in range, and the assignment leaves the result as it is.
\<close>

definition stuck :: "IModuleResult \<Rightarrow> jsstring list \<Rightarrow> IModuleResult \<Rightarrow> nat \<Rightarrow> bool" where
  "stuck fs paths result index =
     (rat_of_nat (length (stringify_files result)) < MAX_RES_SIZE \<and> index < length paths
      \<and> (case map_of fs (paths ! index) of
            None \<Rightarrow> result
          | Some entry \<Rightarrow> obj_set result (paths ! index) entry) = result)"

record IResult =
  files :: IModuleResult
  droppedFileCount :: "nat option"

definition dropFiles :: "IModuleResult \<Rightarrow> IResult option" where
  "dropFiles fs =
     (case dropFiles_loop fs (Object_keys fs) [] 0 of
        None \<Rightarrow> None
      | Some (result, index) \<Rightarrow> Some \<lparr>files = result, droppedFileCount = Some (index + 1)\<rparr>)"

definition dropFilesIfNeeded :: "IModuleResult \<Rightarrow> IResult option" where
  "dropFilesIfNeeded filesWithNoPrefix =
     (let resultSize = length (stringify_ok filesWithNoPrefix None)
      in if MAX_RES_SIZE < rat_of_nat resultSize
         then (case dropFiles filesWithNoPrefix of
                 None \<Rightarrow> None
               | Some r \<Rightarrow> Some \<lparr>files = files r, droppedFileCount = droppedFileCount r\<rparr>)
         else Some \<lparr>files = filesWithNoPrefix, droppedFileCount = None\<rparr>)"

section \<open>The installer, the file tree and the request handler\<close>

text \<open>
  An \<^verbatim>\<open>Error\<close> object: its message and its stack trace, if it has one.
\<close>

record js_error =
  message :: jsstring
  stack :: "jsstring option"

text \<open>
  What the collector finds at a path: a file with its content, a directory with its
  entries, or something \<^verbatim>\<open>fs.statSync\<close> throws on.
\<close>

datatype fsnode =
    File jsstring
  | Directory "(jsstring \<times> fsnode) list"
  | Unreadable js_error

text \<open>
  The world outside the program: the \<^verbatim>\<open>hash-sum\<close> package, the number
  \<^verbatim>\<open>Math.floor(Math.random() * 100000)\<close>, the outcome of a shell command (it fails, or it
  leaves a file tree at the staging location's \<^verbatim>\<open>node_modules\<close>), and the \<^verbatim>\<open>Error\<close>
  objects the platform makes. The platform formats the \<^verbatim>\<open>stack\<close> of an error when it is
  first read, from the message the error has then: \<open>stackAfter w e m\<close> is the \<^verbatim>\<open>stack\<close> that
  the error \<open>e\<close> shows after the program has assigned \<open>m\<close> to its \<^verbatim>\<open>message\<close> (the old text
  when the stack had been read before, a text with the new message otherwise).
\<close>

record env =
  hash_sum :: "jsstring \<Rightarrow> jsstring"
  random :: nat
  exec :: "jsstring \<Rightarrow> js_error + fsnode"
  newError :: "jsstring \<Rightarrow> js_error"
  platformError :: "exn \<Rightarrow> js_error"
  notADirectory :: js_error
  isADirectory :: js_error
  stackAfter :: "js_error \<Rightarrow> jsstring \<Rightarrow> jsstring option"

text \<open>The effects on the world a claim speaks of; \<^verbatim>\<open>console.log\<close> is left out.\<close>

datatype effect = Exec jsstring | Rimraf jsstring

definition BLACKLISTED_DIRECTORIES :: "jsstring list" where
  "BLACKLISTED_DIRECTORIES = [js ''__tests__'', js ''aws-sdk'']"

text \<open>\<^verbatim>\<open>{...a, ...b}\<close>\<close>

definition obj_spread :: "('k \<times> 'v) list \<Rightarrow> ('k \<times> 'v) list \<Rightarrow> ('k \<times> 'v) list" where
  "obj_spread a b = fold (\<lambda>(k, v) acc. obj_set acc k v) b a"

text \<open>
  \<^verbatim>\<open>readDirectory\<close>: the \<^verbatim>\<open>reduce\<close> over the entries of a directory, with the result so
  far.
\<close>

fun readEntries :: "env \<Rightarrow> jsstring \<Rightarrow> IFiles \<Rightarrow> (jsstring \<times> fsnode) list \<Rightarrow> js_error + IFiles" where
  "readEntries w location result [] = Inr result"
| "readEntries w location result ((entry, node) # rest) =
     (let fullPath = path_join location entry in
      case node of
        Unreadable e \<Rightarrow> Inl e
      | Directory sub \<Rightarrow>
          if Array_indexOf BLACKLISTED_DIRECTORIES entry = - 1 then
            (case readEntries w fullPath [] sub of
               Inl e \<Rightarrow> Inl e
             | Inr found \<Rightarrow> readEntries w location (obj_spread result found) rest)
          else if \<not> isFileValid fullPath then readEntries w location result rest
          else Inl (isADirectory w)
      | File content \<Rightarrow>
          if \<not> isFileValid fullPath then readEntries w location result rest
          else readEntries w location (obj_set result fullPath \<lparr>code = content\<rparr>) rest)"

definition readDirectory :: "env \<Rightarrow> jsstring \<Rightarrow> fsnode \<Rightarrow> js_error + IFiles" where
  "readDirectory w location node =
     (case node of
        Directory entries \<Rightarrow> readEntries w location [] entries
      | File content \<Rightarrow> Inl (notADirectory w)
      | Unreadable e \<Rightarrow> Inl e)"

definition installCommand :: "jsstring \<Rightarrow> jsstring \<Rightarrow> jsstring" where
  "installCommand dependencyLocation installQuery =
     js ''cd /tmp && mkdir '' @ dependencyLocation @ js '' && cd '' @ dependencyLocation
     @ js '' && npm init -y && HOME=/tmp yarn add --no-lockfile --non-interactive --no-progress --prod --cache-folder ./ ''
     @ installQuery"

definition extractFiles ::
  "env \<Rightarrow> jsstring \<Rightarrow> jsstring \<Rightarrow> jsstring \<Rightarrow> (js_error + IFiles) \<times> effect list" where
  "extractFiles w dep ver dependencyLocation =
     (let installQuery = (if startsWith ver (js ''http'') then ver else dep @ js ''@'' @ ver);
          command = installCommand dependencyLocation installQuery
      in case exec w command of
           Inl e \<Rightarrow> (Inl e, [Exec command])
         | Inr tree \<Rightarrow>
             (let dependencyPath = js ''/tmp/'' @ dependencyLocation @ js ''/node_modules'';
                  packagePath = dependencyPath @ js ''/'' @ dep
              in case readDirectory w dependencyPath tree of
                   Inl e \<Rightarrow> (Inl e, [Exec command])
                 | Inr found \<Rightarrow> (Inr (cleanFiles found packagePath), [Exec command])))"

definition BLACKLISTED_DEPENDENCIES :: "jsstring list" where
  "BLACKLISTED_DEPENDENCIES = [js ''react-scripts'']"

text \<open>The \<^verbatim>\<open>reduce\<close> that strips the staging prefix and wraps every entry.\<close>

definition withNoPrefix :: "jsstring \<Rightarrow> IFiles \<Rightarrow> IModuleResult" where
  "withNoPrefix dependencyPath found =
     fold (\<lambda>n t. case map_of found n of
                    None \<Rightarrow> t
                  | Some entry \<Rightarrow> obj_set t (String_replace n dependencyPath []) \<lparr>module = entry\<rparr>)
       (Object_keys found) []"

definition downloadDependencyTypings ::
  "env \<Rightarrow> jsstring \<Rightarrow> (js_error + IModuleResult) \<times> effect list" where
  "downloadDependencyTypings w depQuery =
     (case getDependencyAndVersion depQuery of
        Inl x \<Rightarrow> (Inl (platformError w x), [])
      | Inr parsed \<Rightarrow>
          if - 1 < Array_indexOf BLACKLISTED_DEPENDENCIES (dependency parsed) then (Inr [], [])
          else
            (let dependencyLocation =
                   hash_sum w (dependency parsed @ js ''@'' @ version parsed) @ decimal (random w);
                 dependencyPath = js ''/tmp/'' @ dependencyLocation @ js ''/node_modules'';
                 (outcome, effects) =
                   extractFiles w (dependency parsed) (version parsed) dependencyLocation;
                 cleaning = [Rimraf (js ''/tmp/'' @ dependencyLocation)]
             in case outcome of
                  Inl e \<Rightarrow>
                    (let message' = dependencyLocation @ js '': '' @ message e
                     in (Inl (e\<lparr>message := message', stack := stackAfter w e message'\<rparr>),
                         effects @ cleaning))
                | Inr found \<Rightarrow> (Inr (withNoPrefix dependencyPath found), effects @ cleaning)))"

text \<open>
  The value of the query parameter \<^verbatim>\<open>depQuery\<close> as \<^verbatim>\<open>url.parse(req.url, true)\<close> gives it:
  absent, one string, or an array of strings.
\<close>

datatype query_param = Absent | Single jsstring | Multiple "jsstring list"

record response =
  statusCode :: nat
  headers :: "(jsstring \<times> jsstring) list"
  body :: jsstring

text \<open>
  \<^verbatim>\<open>JSON.stringify({status: "error", files: {}, error: e.message, stack: e.stack})\<close>
\<close>

definition stringify_error :: "js_error \<Rightarrow> jsstring" where
  "stringify_error e =
     js ''{\"status\":\"error\",\"files\":{},\"error\":'' @ stringify_string (message e)
     @ (case stack e of None \<Rightarrow> [] | Some s \<Rightarrow> js '',\"stack\":'' @ stringify_string s)
     @ js ''}''"

text \<open>The \<^verbatim>\<open>catch\<close> block of the handler, with the headers set so far.\<close>

definition errorResponse :: "(jsstring \<times> jsstring) list \<Rightarrow> js_error \<Rightarrow> response" where
  "errorResponse hs e = \<lparr>statusCode = 422, headers = hs, body = stringify_error e\<rparr>"

text \<open>
  The handler: the response it ends with and the effects it had, or \<open>None\<close> when it
  never responds.
\<close>

definition handler :: "env \<Rightarrow> query_param \<Rightarrow> (response \<times> effect list) option" where
  "handler w depQuery =
     (case depQuery of
        Absent \<Rightarrow> Some (errorResponse [] (newError w (js ''Please provide a dependency'')), [])
      | Multiple qs \<Rightarrow>
          Some (errorResponse [] (newError w (js ''Dependency should not be an array'')), [])
      | Single q \<Rightarrow>
          if q = [] then
            Some (errorResponse [] (newError w (js ''Please provide a dependency'')), [])
          else
            (let hs = obj_set (obj_set [] (js ''Content-Type'') (js ''application/json''))
                        (js ''Access-Control-Allow-Origin'') (js ''*'')
             in case downloadDependencyTypings w q of
                  (Inl e, effects) \<Rightarrow> Some (errorResponse hs e, effects)
                | (Inr found, effects) \<Rightarrow>
                    (case dropFilesIfNeeded found of
                       None \<Rightarrow> None
                     | Some result \<Rightarrow>
                         Some (\<lparr>statusCode = 200,
                                headers = obj_set hs (js ''Cache-Control'') (js ''public, max-age=31536000''),
                                body = stringify_ok (files result) (droppedFileCount result)\<rparr>,
                               effects))))"

text \<open>
  The staging identifier and the install query of a parsed dependency, as
  \<^verbatim>\<open>downloadDependencyTypings\<close> and \<^verbatim>\<open>extractFiles\<close> compute them.
\<close>

definition stagingLocation :: "env \<Rightarrow> DependencySpec \<Rightarrow> jsstring" where
  "stagingLocation w parsed =
     hash_sum w (dependency parsed @ js ''@'' @ version parsed) @ decimal (random w)"

definition installQueryOf :: "DependencySpec \<Rightarrow> jsstring" where
  "installQueryOf parsed =
     (if startsWith (version parsed) (js ''http'') then version parsed
      else dependency parsed @ js ''@'' @ version parsed)"

text \<open>
  The requests on which something is thrown inside the handler's \<^verbatim>\<open>try\<close> block:
  \<^verbatim>\<open>depQuery\<close> is missing, empty or an array; the parser throws; or the dependency is not on
  the denylist and the installer fails, or it succeeds and reading the tree fails.
\<close>

definition requestFails :: "env \<Rightarrow> query_param \<Rightarrow> bool" where
  "requestFails w depQuery =
     (case depQuery of
        Absent \<Rightarrow> True
      | Multiple qs \<Rightarrow> True
      | Single q \<Rightarrow>
          q = [] \<or>
          (case getDependencyAndVersion q of
             Inl x \<Rightarrow> True
           | Inr parsed \<Rightarrow>
               dependency parsed \<notin> set BLACKLISTED_DEPENDENCIES \<and>
               (case exec w (installCommand (stagingLocation w parsed) (installQueryOf parsed)) of
                  Inl e \<Rightarrow> True
                | Inr tree \<Rightarrow>
                    (case readDirectory w
                            (js ''/tmp/'' @ stagingLocation w parsed @ js ''/node_modules'') tree of
                       Inl e \<Rightarrow> True
                     | Inr found \<Rightarrow> False))))"

section \<open>Readings of the specification\<close>

text \<open>
  The specification's words for the query parser: a string with no \<^verbatim>\<open>@\<close>, or with
  exactly one \<^verbatim>\<open>@\<close> as its first character, is the name and the version is
  \<^verbatim>\<open>latest\<close>; otherwise the version separator is the last \<^verbatim>\<open>@\<close> (it is not at position
  0), and splitting there gives the name and the percent-decoded version.
\<close>

definition spec_getDependencyAndVersion :: "jsstring \<Rightarrow> exn + DependencySpec" where
  "spec_getDependencyAndVersion q =
     (let ats = filter (\<lambda>k. q ! k = ch CHR ''@'') [0..<length q] in
      if ats = [] \<or> ats = [0] then Inr \<lparr>dependency = q, version = js ''latest''\<rparr>
      else (let i = last ats in
            case decodeURIComponent (drop (Suc i) q) of
              Inl e \<Rightarrow> Inl e
            | Inr v \<Rightarrow> Inr \<lparr>dependency = take i q, version = v\<rparr>))"

text \<open>
  The name parts the code gives back in full. The name part \<open>n\<close> of a query is what stands
  before the first \<^verbatim>\<open>@\<close> that is not at position 0, so it is not empty and has no \<^verbatim>\<open>@\<close>
  after its first character. It is given back in full when it is a bare name (one segment)
  or a scoped name \<^verbatim>\<open>@scope/name\<close> (two segments, the first led by \<^verbatim>\<open>@\<close>), either of
  them alone or followed by one more segment that starts with a digit (the aliased version
  of \<^verbatim>\<open>getDependencyName\<close>, as in \<^verbatim>\<open>name/2.0\<close>).
\<close>

definition packageName :: "jsstring \<Rightarrow> bool" where
  "packageName n =
     (case n of
        [] \<Rightarrow> False
      | c # t \<Rightarrow> ch CHR ''@'' \<notin> set t \<and>
          (let segs = String_split (ch CHR ''/'') n;
               scope = (if c = ch CHR ''@'' then 1 else 0)
           in length segs = 1 + scope
              \<or> (length segs = 2 + scope \<and> startsWithDigit (drop (1 + scope) segs))))"

text \<open>
  The specification's words for the inclusion predicate: under a \<^verbatim>\<open>/src/\<close> component keep
  \<^verbatim>\<open>.d.ts\<close>, otherwise keep \<^verbatim>\<open>.ts\<close>, and always keep a file whose name is exactly
  \<^verbatim>\<open>package.json\<close>.
\<close>

definition basename :: "jsstring \<Rightarrow> jsstring" where
  "basename p = last (String_split (ch CHR ''/'') p)"

definition spec_isFileValid :: "jsstring \<Rightarrow> bool" where
  "spec_isFileValid path =
     ((if - 1 < indexOf path (js ''/src/'') then endsWith path (js ''.d.ts'') else endsWith path (js ''.ts''))
      \<or> basename path = js ''package.json'')"

text \<open>
  The specification's words for the typings filter. A path lies under a directory when
  the directory is a prefix of it that ends at a \<^verbatim>\<open>/\<close>. A manifest declares typings when it
  parses as a JSON object with a \<^verbatim>\<open>typings\<close> or a \<^verbatim>\<open>types\<close> member. The filter keeps
  every \<^verbatim>\<open>.ts\<close> path, the root manifest, and any other \<^verbatim>\<open>package.json\<close> that declares
  typings or has a \<^verbatim>\<open>.ts\<close> path under its directory.
\<close>

definition nestedUnder :: "jsstring \<Rightarrow> jsstring \<Rightarrow> bool" where
  "nestedUnder q d =
     (startsWith q d \<and> length d < length q
      \<and> (endsWith d (js ''/'') \<or> q ! length d = ch CHR ''/''))"

definition declaresTypings :: "jsstring \<Rightarrow> bool" where
  "declaresTypings content =
     (case JSON_parse content of
        Inr (JObject ms) \<Rightarrow> map_of ms (js ''typings'') \<noteq> None \<or> map_of ms (js ''types'') \<noteq> None
      | _ \<Rightarrow> False)"

definition spec_cleanFiles_keeps :: "IFiles \<Rightarrow> jsstring \<Rightarrow> jsstring \<Rightarrow> FileEntry \<Rightarrow> bool" where
  "spec_cleanFiles_keeps fs rootPath p e =
     (endsWith p (js ''.ts'')
      \<or> p = path_join rootPath (js ''package.json'')
      \<or> (endsWith p (js ''/package.json'')
          \<and> (declaresTypings (code e)
              \<or> list_ex (\<lambda>q. endsWith q (js ''.ts'') \<and> nestedUnder q (path_dirname p))
                   (Object_keys fs))))"

section \<open>Example inputs\<close>

text \<open>
  A collected tree: the root manifest (without typings), a manifest with typings, a
  manifest that is not JSON beside a declaration file, and a manifest with neither.
\<close>

definition example_files :: IFiles where
  "example_files =
     [(js ''/r/lodash/package.json'', \<lparr>code = js ''{\"name\":\"lodash\"}''\<rparr>),
      (js ''/r/a/package.json'', \<lparr>code = js ''{\"types\":\"index.d.ts\"}''\<rparr>),
      (js ''/r/b/package.json'', \<lparr>code = js ''not json''\<rparr>),
      (js ''/r/b/lib/x.d.ts'', \<lparr>code = js ''export {}''\<rparr>),
      (js ''/r/c/package.json'', \<lparr>code = js ''{}''\<rparr>)]"

definition example_cleaned :: IFiles where
  "example_cleaned =
     [(js ''/r/lodash/package.json'', \<lparr>code = js ''{\"name\":\"lodash\"}''\<rparr>),
      (js ''/r/a/package.json'', \<lparr>code = js ''{\"types\":\"index.d.ts\"}''\<rparr>),
      (js ''/r/b/package.json'', \<lparr>code = js ''not json''\<rparr>),
      (js ''/r/b/lib/x.d.ts'', \<lparr>code = js ''export {}''\<rparr>)]"

text \<open>A manifest whose \<^verbatim>\<open>types\<close> member is the empty string, alone.\<close>

definition example_empty_types :: IFiles where
  "example_empty_types = [(js ''/r/baz/package.json'', \<lparr>code = js ''{\"types\":\"\"}''\<rparr>)]"

text \<open>A manifest in \<^verbatim>\<open>/r/foo\<close> and a declaration file in \<^verbatim>\<open>/r/foobar\<close>.\<close>

definition example_sibling :: IFiles where
  "example_sibling =
     [(js ''/r/foo/package.json'', \<lparr>code = js ''{}''\<rparr>),
      (js ''/r/foobar/index.d.ts'', \<lparr>code = js ''export {}''\<rparr>)]"

text \<open>
  A declaration file of 6081741 code units, one more than the ceiling allows for a whole
  response, alone and before two small files; and two files of 3100000 code units each.
\<close>

definition big_entry :: "jsstring \<times> ModuleEntry" where
  "big_entry = (js ''/index.d.ts'', \<lparr>module = \<lparr>code = replicate 6081741 (ch CHR ''x'')\<rparr>\<rparr>)"

definition example_one_big :: IModuleResult where
  "example_one_big = [big_entry]"

definition example_big_first :: IModuleResult where
  "example_big_first =
     [big_entry,
      (js ''/a.d.ts'', \<lparr>module = \<lparr>code = js ''export {}''\<rparr>\<rparr>),
      (js ''/b.d.ts'', \<lparr>module = \<lparr>code = js ''export {}''\<rparr>\<rparr>)]"

definition example_two_halves :: IModuleResult where
  "example_two_halves =
     [(js ''/a.d.ts'', \<lparr>module = \<lparr>code = replicate 3100000 (ch CHR ''x'')\<rparr>\<rparr>),
      (js ''/b.d.ts'', \<lparr>module = \<lparr>code = replicate 3100000 (ch CHR ''x'')\<rparr>\<rparr>)]"

text \<open>
  A world in which every shell command fails, as when the package does not exist; the
  hash of every name is \<^verbatim>\<open>c0ffee\<close> and the random number is 42. No stack has been read
  before the handler reads it, so a stack shows the message the error has by then.
\<close>

definition example_env :: env where
  "example_env =
     \<lparr>hash_sum = (\<lambda>s. js ''c0ffee''),
      random = 42,
      exec = (\<lambda>command.
                Inl \<lparr>message = js ''Command failed'', stack = Some (js ''Error: Command failed'')\<rparr>),
      newError = (\<lambda>m. \<lparr>message = m, stack = Some (js ''Error: '' @ m)\<rparr>),
      platformError = (\<lambda>x. \<lparr>message = js ''URI malformed'', stack = None\<rparr>),
      notADirectory = \<lparr>message = js ''ENOTDIR'', stack = None\<rparr>,
      isADirectory = \<lparr>message = js ''EISDIR'', stack = None\<rparr>,
      stackAfter = (\<lambda>e m. Some (js ''Error: '' @ m))\<rparr>"

text \<open>
  A world in which the installer succeeds and leaves the package \<^verbatim>\<open>lodash\<close> with its
  manifest, a declaration file and a readme.
\<close>

definition example_env_lodash :: env where
  "example_env_lodash =
     example_env
       \<lparr>exec := (\<lambda>command.
          Inr (Directory
                 [(js ''lodash'',
                   Directory
                     [(js ''package.json'', File (js ''{}'')),
                      (js ''index.d.ts'', File (js ''export {}'')),
                      (js ''README.md'', File (js ''lodash'')),
                      (js ''__tests__'', Directory [(js ''t.d.ts'', File (js ''export {}''))])])]))\<rparr>"

section \<open>Properties of the query parser\<close>

subsection \<open>Splitting and replacing\<close>

lemma length_String_split:
  "length (String_split sep s) = Suc (length (filter (\<lambda>c. c = sep) s))"
  by (induction s) (auto split: list.splits)

lemma String_split_no_sep: "sep \<notin> set s \<Longrightarrow> String_split sep s = [s]"
  by (induction s) auto

lemma String_split_append:
  "sep \<notin> set a \<Longrightarrow> String_split sep (a @ sep # b) = a # String_split sep b"
  by (induction a) auto

lemma startsWith_absent: "x \<in> set p \<Longrightarrow> x \<notin> set s \<Longrightarrow> \<not> startsWith s p"
  unfolding startsWith_def by (metis in_set_takeD)

lemma String_replace_absent: "x \<in> set p \<Longrightarrow> x \<notin> set s \<Longrightarrow> String_replace s p r = s"
proof (induction s)
  case Nil
  then show ?case by auto
next
  case (Cons c cs)
  then have "\<not> startsWith (c # cs) p" by (intro startsWith_absent[of x]) auto
  with Cons show ?case by simp
qed

lemma String_replace_prefix: "p \<noteq> [] \<Longrightarrow> String_replace (p @ t) p r = r @ t"
  by (cases p) (simp_all add: startsWith_def)

lemma takeWhile_until: "x \<notin> set cs \<Longrightarrow> takeWhile (\<lambda>y. y \<noteq> x) (cs @ x # r) = cs"
  by (induction cs) auto

lemma dropWhile_until: "x \<notin> set cs \<Longrightarrow> dropWhile (\<lambda>y. y \<noteq> x) (cs @ x # r) = x # r"
  by (induction cs) auto

lemma set_dropWhile_subset: "x \<notin> set r \<Longrightarrow> x \<notin> set (dropWhile P r)"
  by (induction r) auto

lemma joinWith_split: "joinWith [sep] (String_split sep s) = s"
proof (induction s)
  case Nil
  then show ?case by simp
next
  case (Cons c cs)
  show ?case
  proof (cases "String_split sep cs")
    case Nil
    with Cons show ?thesis by simp
  next
    case (Cons p ps)
    with Cons.IH show ?thesis by (cases ps) auto
  qed
qed

lemma joinWith_Cons:
  "joinWith sep (x # xs) = x @ (if xs = [] then [] else sep @ joinWith sep xs)"
  by (cases xs) simp_all

lemma String_split_nonempty: "String_split sep s \<noteq> []"
  by (induction s) (auto split: list.splits)

subsection \<open>The name of a query\<close>

lemma removeVersion_at:
  assumes "n \<noteq> []" "ch CHR ''@'' \<notin> set (tl n)"
  shows "removeVersion (n @ ch CHR ''@'' # r) = n @ dropWhile (\<lambda>x. \<not> lineTerminator x) r"
proof (cases n)
  case Nil
  with assms show ?thesis by simp
next
  case (Cons c cs)
  with assms have "ch CHR ''@'' \<notin> set cs" by simp
  then have "takeWhile (\<lambda>x. x \<noteq> ch CHR ''@'') (cs @ ch CHR ''@'' # r) = cs"
    and "dropWhile (\<lambda>x. x \<noteq> ch CHR ''@'') (cs @ ch CHR ''@'' # r) = ch CHR ''@'' # r"
    by (simp_all add: takeWhile_until dropWhile_until)
  then show ?thesis using Cons by (simp add: lineTerminator_def)
qed

text \<open>The name as a function of the segments of what \<^verbatim>\<open>removeVersion\<close> leaves.\<close>

lemma getDependencyName_segments:
  assumes "String_split (ch CHR ''/'') (removeVersion path) = a # ps"
  shows "getDependencyName path =
     (if startsWith path (js ''@'')
      then (case ps of
              [] \<Rightarrow> a @ js ''/undefined''
            | b # qs \<Rightarrow> if startsWithDigit qs then a @ js ''/'' @ b @ js ''/'' @ hd qs
                        else a @ js ''/'' @ b)
      else if startsWithDigit ps then a @ js ''/'' @ hd ps else a)"
proof (cases ps)
  case Nil
  then show ?thesis
    by (simp add: getDependencyName_def assms[simplified] shift_def toString_def startsWithDigit_def)
next
  case (Cons b qs)
  then show ?thesis
    by (cases qs)
       (simp_all add: getDependencyName_def assms[simplified] shift_def toString_def startsWithDigit_def)
qed

text \<open>A name part of the class \<open>packageName\<close> is given back in full.\<close>

lemma getDependencyName_packageName:
  assumes "packageName n" and "list_all (\<lambda>x. \<not> lineTerminator x) r"
  shows "getDependencyName (n @ ch CHR ''@'' # r) = n"
proof -
  let ?q = "n @ ch CHR ''@'' # r"
  from assms(1) obtain c t where n: "n = c # t" and at: "ch CHR ''@'' \<notin> set t"
    by (auto simp: packageName_def split: list.splits)
  from assms(2) have "dropWhile (\<lambda>x. \<not> lineTerminator x) r = []"
    by (simp add: list_all_iff)
  with n at have rv: "removeVersion ?q = n"
    using removeVersion_at[of n r] by simp
  have sw: "startsWith ?q (js ''@'') = (c = ch CHR ''@'')"
    using n by (simp add: startsWith_def)
  have j: "joinWith [ch CHR ''/''] (String_split (ch CHR ''/'') n) = n"
    by (rule joinWith_split)
  obtain a ps where sp: "String_split (ch CHR ''/'') n = a # ps"
    using j n by (cases "String_split (ch CHR ''/'') n") auto
  have name: "getDependencyName ?q =
     (if c = ch CHR ''@''
      then (case ps of
              [] \<Rightarrow> a @ js ''/undefined''
            | b # qs \<Rightarrow> if startsWithDigit qs then a @ js ''/'' @ b @ js ''/'' @ hd qs
                        else a @ js ''/'' @ b)
      else if startsWithDigit ps then a @ js ''/'' @ hd ps else a)"
    using getDependencyName_segments[of ?q a ps] rv sp sw by simp
  from assms(1) n sp have shape:
    "(let scope = (if c = ch CHR ''@'' then 1 else 0)
      in length (a # ps) = 1 + scope
         \<or> (length (a # ps) = 2 + scope \<and> startsWithDigit (drop (1 + scope) (a # ps))))"
    by (simp add: packageName_def Let_def)
  show ?thesis
  proof (cases "c = ch CHR ''@''")
    case True
    with shape consider (two) b where "ps = [b]"
      | (three) b d where "ps = [b, d]" "startsWithDigit [d]"
      by (cases ps; cases "tl ps"; cases "tl (tl ps)") (auto simp: Let_def)
    then show ?thesis
    proof cases
      case two
      with name True j sp show ?thesis by (simp add: startsWithDigit_def)
    next
      case three
      with name True j sp show ?thesis by simp
    qed
  next
    case False
    with shape consider (one) "ps = []"
      | (two) b where "ps = [b]" "startsWithDigit [b]"
      by (cases ps; cases "tl ps") (auto simp: Let_def)
    then show ?thesis
    proof cases
      case one
      with name False j sp show ?thesis by (simp add: startsWithDigit_def)
    next
      case two
      with name False j sp show ?thesis by simp
    qed
  qed
qed


text \<open>
  What follows the name in the text that \<^verbatim>\<open>removeVersion\<close> leaves is a line terminator and
  not a \<^verbatim>\<open>/\<close>: when the name ends at a segment boundary, nothing follows it.
\<close>

lemma nothing_follows:
  assumes "n @ (if rest = [] then [] else ch CHR ''/'' # joinWith [ch CHR ''/''] rest)
             = n @ dropWhile (\<lambda>x. \<not> lineTerminator x) r"
  shows "rest = [] \<and> dropWhile (\<lambda>x. \<not> lineTerminator x) r = []"
proof (cases "rest = []")
  case True
  with assms show ?thesis by simp
next
  case False
  with assms have d: "dropWhile (\<lambda>x. \<not> lineTerminator x) r
                        = ch CHR ''/'' # joinWith [ch CHR ''/''] rest"
    by simp
  then have "dropWhile (\<lambda>x. \<not> lineTerminator x) r \<noteq> []" by simp
  then have "\<not> \<not> lineTerminator (hd (dropWhile (\<lambda>x. \<not> lineTerminator x) r))"
    by (rule hd_dropWhile)
  with d show ?thesis by (simp add: lineTerminator_def)
qed

lemma getDependencyName_full_only:
  assumes "n \<noteq> []" and "ch CHR ''@'' \<notin> set (tl n)"
    and "getDependencyName (n @ ch CHR ''@'' # r) = n"
  shows "packageName n \<and> list_all (\<lambda>x. \<not> lineTerminator x) r"
proof -
  let ?q = "n @ ch CHR ''@'' # r"
  let ?tail = "dropWhile (\<lambda>x. \<not> lineTerminator x) r"
  from assms(1,2) obtain c t where n: "n = c # t" and at: "ch CHR ''@'' \<notin> set t"
    by (cases n) auto
  have rv: "removeVersion ?q = n @ ?tail"
    using assms(1,2) by (rule removeVersion_at)
  have sw: "startsWith ?q (js ''@'') = (c = ch CHR ''@'')"
    using n by (simp add: startsWith_def)
  obtain a ps where sp: "String_split (ch CHR ''/'') (n @ ?tail) = a # ps"
    using String_split_nonempty[of "ch CHR ''/''" "n @ ?tail"]
    by (cases "String_split (ch CHR ''/'') (n @ ?tail)") auto
  have "joinWith [ch CHR ''/''] (a # ps) = n @ ?tail"
    using joinWith_split[of "ch CHR ''/''" "n @ ?tail"] by (simp only: sp)
  then have j: "a @ (if ps = [] then [] else ch CHR ''/'' # joinWith [ch CHR ''/''] ps) = n @ ?tail"
    by (cases "ps = []") (simp_all add: joinWith_Cons)
  have name: "n =
     (if c = ch CHR ''@''
      then (case ps of
              [] \<Rightarrow> a @ js ''/undefined''
            | b # qs \<Rightarrow> if startsWithDigit qs then a @ js ''/'' @ b @ js ''/'' @ hd qs
                        else a @ js ''/'' @ b)
      else if startsWithDigit ps then a @ js ''/'' @ hd ps else a)"
    using getDependencyName_segments[of ?q a ps] rv sp sw assms(3) by simp
  have fin: "packageName n \<and> list_all (\<lambda>x. \<not> lineTerminator x) r"
    if segs: "a # ps = used" and len: "length used = 1 + (if c = ch CHR ''@'' then 1 else 0)
          \<or> (length used = 2 + (if c = ch CHR ''@'' then 1 else 0)
              \<and> startsWithDigit (drop (1 + (if c = ch CHR ''@'' then 1 else 0)) used))"
      and tail: "?tail = []" for used
  proof -
    from sp tail segs have "String_split (ch CHR ''/'') n = used" by simp
    with len n at have "packageName n" by (simp add: packageName_def Let_def)
    moreover from tail have "list_all (\<lambda>x. \<not> lineTerminator x) r"
      by (simp add: list_all_iff)
    ultimately show ?thesis by simp
  qed
  show ?thesis
  proof (cases "c = ch CHR ''@''")
    case scoped: True
    show ?thesis
    proof (cases ps)
      case Nil
      with name scoped j have "a = (a @ js ''/undefined'') @ ?tail" by simp
      then have "length a = length ((a @ js ''/undefined'') @ ?tail)" by (rule arg_cong)
      then show ?thesis by simp
    next
      case (Cons b qs)
      show ?thesis
      proof (cases "startsWithDigit qs")
        case True
        then obtain d es where qs: "qs = d # es" by (cases qs) (auto simp: startsWithDigit_def)
        with name scoped Cons True have nm: "n = a @ js ''/'' @ b @ js ''/'' @ d" by simp
        from j Cons qs have
          "(a @ js ''/'' @ b @ js ''/'' @ d)
             @ (if es = [] then [] else ch CHR ''/'' # joinWith [ch CHR ''/''] es) = n @ ?tail"
          by (cases "es = []") (simp_all add: joinWith_Cons)
        then have "es = [] \<and> ?tail = []"
          by (intro nothing_follows[of n]) (simp only: nm)
        with Cons qs True scoped show ?thesis
          by (intro fin[of "[a, b, d]"]) simp_all
      next
        case False
        with name scoped Cons have nm: "n = a @ js ''/'' @ b" by simp
        from j Cons have
          "(a @ js ''/'' @ b)
             @ (if qs = [] then [] else ch CHR ''/'' # joinWith [ch CHR ''/''] qs) = n @ ?tail"
          by (cases "qs = []") (simp_all add: joinWith_Cons)
        then have "qs = [] \<and> ?tail = []"
          by (intro nothing_follows[of n]) (simp only: nm)
        with Cons scoped show ?thesis
          by (intro fin[of "[a, b]"]) simp_all
      qed
    qed
  next
    case bare: False
    show ?thesis
    proof (cases "startsWithDigit ps")
      case True
      then obtain b qs where ps: "ps = b # qs" by (cases ps) (auto simp: startsWithDigit_def)
      with name bare True have nm: "n = a @ js ''/'' @ b" by simp
      from j ps have
        "(a @ js ''/'' @ b)
           @ (if qs = [] then [] else ch CHR ''/'' # joinWith [ch CHR ''/''] qs) = n @ ?tail"
        by (cases "qs = []") (simp_all add: joinWith_Cons)
      then have "qs = [] \<and> ?tail = []"
        by (intro nothing_follows[of n]) (simp only: nm)
      with ps True bare show ?thesis
        by (intro fin[of "[a, b]"]) simp_all
    next
      case False
      with name bare have nm: "n = a" by simp
      from j have "ps = [] \<and> ?tail = []"
        by (intro nothing_follows[of n]) (simp only: nm)
      with bare show ?thesis
        by (intro fin[of "[a]"]) simp_all
    qed
  qed
qed


text \<open>
  So the parser returns the name part \<open>n\<close> of a query \<open>n@r\<close> as the dependency only when
  \<open>n\<close> is of the class \<open>packageName\<close> and \<open>r\<close> holds no line terminator.
\<close>

lemma getDependencyAndVersion_full_only:
  assumes "n \<noteq> []" and "ch CHR ''@'' \<notin> set (tl n)"
    and "getDependencyAndVersion (n @ ch CHR ''@'' # r) = Inr \<lparr>dependency = n, version = v\<rparr>"
  shows "packageName n \<and> list_all (\<lambda>x. \<not> lineTerminator x) r"
proof -
  let ?q = "n @ ch CHR ''@'' # r"
  from assms(1) obtain c t where n: "n = c # t" by (cases n) auto
  have cnt: "length (String_split (ch CHR ''@'') ?q)
               = Suc (length (filter (\<lambda>x. x = ch CHR ''@'') ?q))"
    by (rule length_String_split)
  have "length (filter (\<lambda>x. x = ch CHR ''@'') ?q) \<ge> (if c = ch CHR ''@'' then 2 else 1)"
    using n by simp
  with cnt have nolatest:
    "((startsWith ?q (js ''@'') \<and> length (String_split (ch CHR ''@'') ?q) = 2)
       \<or> length (String_split (ch CHR ''@'') ?q) = 1) = False"
    using n by (auto simp: startsWith_def)
  have "(case decodeURIComponent (String_replace ?q (getDependencyName ?q @ js ''@'') []) of
           Inl e \<Rightarrow> Inl e
         | Inr ver \<Rightarrow> Inr \<lparr>dependency = getDependencyName ?q, version = ver\<rparr>)
        = Inr \<lparr>dependency = n, version = v\<rparr>"
    using assms(3) by (simp only: getDependencyAndVersion_def Let_def nolatest if_False)
  then have "getDependencyName ?q = n"
    by (cases "decodeURIComponent (String_replace ?q (getDependencyName ?q @ js ''@'') [])")
       simp_all
  with assms(1,2) show ?thesis by (rule getDependencyName_full_only)
qed

subsection \<open>C6: where the parser splits\<close>

text \<open>
  Claim C6, as the code has it. The parser splits at the \<^emph>\<open>first\<close> \<^verbatim>\<open>@\<close> that is not at
  position 0: for a query \<open>n@r\<close> whose name part \<open>n\<close> is a bare or a scoped package name,
  alone or followed by one segment that starts with a digit (the class \<open>packageName\<close>),
  and whose rest \<open>r\<close> holds no line terminator, the dependency is \<open>n\<close> and the version is the
  percent-decoded \<open>r\<close> (which may hold further \<^verbatim>\<open>@\<close>); the parser raises \<^verbatim>\<open>URIError\<close>
  exactly when the decoding of \<open>r\<close> does.
\<close>

theorem getDependencyAndVersion_first_at:
  assumes "packageName n" and "list_all (\<lambda>x. \<not> lineTerminator x) r"
  shows "getDependencyAndVersion (n @ js ''@'' @ r) =
           (case decodeURIComponent r of
              Inl e \<Rightarrow> Inl e
            | Inr v \<Rightarrow> Inr \<lparr>dependency = n, version = v\<rparr>)"
proof -
  let ?q = "n @ ch CHR ''@'' # r"
  from assms(1) obtain c t where n: "n = c # t" and at: "ch CHR ''@'' \<notin> set t"
    by (auto simp: packageName_def split: list.splits)
  have name: "getDependencyName ?q = n"
    using assms by (rule getDependencyName_packageName)
  have cnt: "length (String_split (ch CHR ''@'') ?q)
               = Suc (length (filter (\<lambda>x. x = ch CHR ''@'') ?q))"
    by (rule length_String_split)
  have "length (filter (\<lambda>x. x = ch CHR ''@'') ?q) \<ge> (if c = ch CHR ''@'' then 2 else 1)"
    using n by simp
  with cnt have nolatest:
    "((startsWith ?q (js ''@'') \<and> length (String_split (ch CHR ''@'') ?q) = 2)
       \<or> length (String_split (ch CHR ''@'') ?q) = 1) = False"
    using n by (auto simp: startsWith_def)
  have "String_replace ((n @ js ''@'') @ r) (n @ js ''@'') [] = [] @ r"
    by (rule String_replace_prefix) simp
  then have rep: "String_replace ?q (n @ js ''@'') [] = r" by simp
  have q: "n @ js ''@'' @ r = ?q" by simp
  show ?thesis
    by (simp only: q getDependencyAndVersion_def Let_def nolatest name rep if_False)
qed

text \<open>
  The theorem at \<^verbatim>\<open>@scope/name@%5E1.0@x\<close>: the version is \<^verbatim>\<open>^1.0@x\<close>; and at
  \<^verbatim>\<open>name/2.0@1.0\<close>: the name is \<^verbatim>\<open>name/2.0\<close>.
\<close>

theorem getDependencyAndVersion_first_at_witness:
  "packageName (js ''@scope/name'') \<and> list_all (\<lambda>x. \<not> lineTerminator x) (js ''%5E1.0@x'')
   \<and> getDependencyAndVersion (js ''@scope/name@%5E1.0@x'') =
       Inr \<lparr>dependency = js ''@scope/name'', version = js ''^1.0@x''\<rparr>
   \<and> packageName (js ''name/2.0'') \<and> list_all (\<lambda>x. \<not> lineTerminator x) (js ''1.0'')
   \<and> getDependencyAndVersion (js ''name/2.0@1.0'') =
       Inr \<lparr>dependency = js ''name/2.0'', version = js ''1.0''\<rparr>"
proof -
  have a: "packageName (js ''@scope/name'')"
    by (simp add: packageName_def startsWithDigit_def)
  have b: "list_all (\<lambda>x. \<not> lineTerminator x) (js ''%5E1.0@x'')"
    by (simp add: lineTerminator_def)
  have c: "decodeURIComponent (js ''%5E1.0@x'') = Inr (js ''^1.0@x'')"
    by (simp add: decodeURIComponent_def isHex_def hexVal_def leadingOnes_def)
  have a': "packageName (js ''name/2.0'')"
    by (simp add: packageName_def startsWithDigit_def isDigit_def)
  have b': "list_all (\<lambda>x. \<not> lineTerminator x) (js ''1.0'')"
    by (simp add: lineTerminator_def)
  have c': "decodeURIComponent (js ''1.0'') = Inr (js ''1.0'')"
    by (simp add: decodeURIComponent_def)
  have one: "getDependencyAndVersion (js ''@scope/name@%5E1.0@x'') =
       Inr \<lparr>dependency = js ''@scope/name'', version = js ''^1.0@x''\<rparr>"
    using c getDependencyAndVersion_first_at[OF a b] by simp
  have two: "getDependencyAndVersion (js ''name/2.0@1.0'') =
       Inr \<lparr>dependency = js ''name/2.0'', version = js ''1.0''\<rparr>"
    using c' getDependencyAndVersion_first_at[OF a' b'] by simp
  from a b one a' b' two show ?thesis by (intro conjI)
qed

text \<open>
  Claim C6 as the specification states it (the \<^emph>\<open>last\<close> \<^verbatim>\<open>@\<close>) fails at \<^verbatim>\<open>a@1@2\<close>: the
  code answers name \<^verbatim>\<open>a\<close> and version \<^verbatim>\<open>1@2\<close>, the split at the last \<^verbatim>\<open>@\<close> is name
  \<^verbatim>\<open>a@1\<close> and version \<^verbatim>\<open>2\<close>. It also fails where the name part has a sub-path that
  does not start with a digit: at \<^verbatim>\<open>lodash/fp@4.17.21\<close> the code answers name \<^verbatim>\<open>lodash\<close>
  and the whole query as the version. And it fails where the rest holds a line
  terminator: at \<^verbatim>\<open>a@1\<close>, a line feed, \<^verbatim>\<open>2\<close>, the code keeps the line feed and the \<^verbatim>\<open>2\<close>
  in the name and answers the whole query as the version.
\<close>

theorem getDependencyAndVersion_last_at_counterexample:
  "getDependencyAndVersion (js ''a@1@2'') = Inr \<lparr>dependency = js ''a'', version = js ''1@2''\<rparr>
   \<and> spec_getDependencyAndVersion (js ''a@1@2'')
       = Inr \<lparr>dependency = js ''a@1'', version = js ''2''\<rparr>
   \<and> getDependencyAndVersion (js ''lodash/fp@4.17.21'')
       = Inr \<lparr>dependency = js ''lodash'', version = js ''lodash/fp@4.17.21''\<rparr>
   \<and> spec_getDependencyAndVersion (js ''lodash/fp@4.17.21'')
       = Inr \<lparr>dependency = js ''lodash/fp'', version = js ''4.17.21''\<rparr>
   \<and> getDependencyAndVersion (js ''a@1'' @ [0x0A] @ js ''2'')
       = Inr \<lparr>dependency = js ''a'' @ [0x0A] @ js ''2'', version = js ''a@1'' @ [0x0A] @ js ''2''\<rparr>
   \<and> spec_getDependencyAndVersion (js ''a@1'' @ [0x0A] @ js ''2'')
       = Inr \<lparr>dependency = js ''a'', version = js ''1'' @ [0x0A] @ js ''2''\<rparr>"
  by (simp add: getDependencyAndVersion_def getDependencyName_def startsWith_def shift_def
      toString_def startsWithDigit_def decodeURIComponent_def lineTerminator_def
      spec_getDependencyAndVersion_def upt_rec isDigit_def)

subsection \<open>C9: a scope without a name\<close>

text \<open>
  Claim C9, as the code has it. For a query \<^verbatim>\<open>@s@r\<close> without \<^verbatim>\<open>/\<close> (\<open>s\<close> is the text
  between the leading \<^verbatim>\<open>@\<close> and the next one), the parser answers the percent-decoded
  whole query as the version and, as the name, the scope segment followed by
  \<^verbatim>\<open>/undefined\<close>; the scope segment is \<^verbatim>\<open>@s\<close>, followed by what \<open>r\<close> holds from its first line
  terminator on (nothing when it has none). When the query cannot be percent-decoded the
  parser raises \<^verbatim>\<open>URIError\<close> and returns no name.
\<close>

theorem getDependencyAndVersion_scope_undefined:
  assumes "ch CHR ''@'' \<notin> set s" and "ch CHR ''/'' \<notin> set s" and "ch CHR ''/'' \<notin> set r"
  shows "getDependencyAndVersion (js ''@'' @ s @ js ''@'' @ r) =
           (case decodeURIComponent (js ''@'' @ s @ js ''@'' @ r) of
              Inl e \<Rightarrow> Inl e
            | Inr v \<Rightarrow>
                Inr \<lparr>dependency = js ''@'' @ s @ dropWhile (\<lambda>x. \<not> lineTerminator x) r
                                     @ js ''/undefined'',
                     version = v\<rparr>)"
proof -
  let ?n = "ch CHR ''@'' # s"
  let ?q = "?n @ ch CHR ''@'' # r"
  let ?seg = "?n @ dropWhile (\<lambda>x. \<not> lineTerminator x) r"
  have rv: "removeVersion ?q = ?seg"
    using assms(1) by (intro removeVersion_at) simp_all
  have "ch CHR ''/'' \<notin> set (dropWhile (\<lambda>x. \<not> lineTerminator x) r)"
    using assms(3) by (rule set_dropWhile_subset)
  with assms(2) have "ch CHR ''/'' \<notin> set ?seg" by simp
  then have sp: "String_split (ch CHR ''/'') ?seg = [?seg]" by (rule String_split_no_sep)
  have sw: "startsWith ?q (js ''@'')" by (simp add: startsWith_def)
  have name: "getDependencyName ?q = ?seg @ js ''/undefined''"
    by (simp only: getDependencyName_def rv sp sw)
       (simp add: shift_def toString_def startsWithDigit_def)
  have cnt: "length (String_split (ch CHR ''@'') ?q)
               = Suc (length (filter (\<lambda>x. x = ch CHR ''@'') ?q))"
    by (rule length_String_split)
  have "length (filter (\<lambda>x. x = ch CHR ''@'') ?q) \<ge> 2" by simp
  with cnt have nolatest:
    "((startsWith ?q (js ''@'') \<and> length (String_split (ch CHR ''@'') ?q) = 2)
       \<or> length (String_split (ch CHR ''@'') ?q) = 1) = False"
    by auto
  have "ch CHR ''/'' \<in> set ((?seg @ js ''/undefined'') @ js ''@'')" by simp
  moreover have "ch CHR ''/'' \<notin> set ?q" using assms(2,3) by simp
  ultimately have rep: "String_replace ?q ((?seg @ js ''/undefined'') @ js ''@'') [] = ?q"
    by (rule String_replace_absent)
  have q: "js ''@'' @ s @ js ''@'' @ r = ?q" by simp
  have d: "js ''@'' @ s @ dropWhile (\<lambda>x. \<not> lineTerminator x) r @ js ''/undefined''
             = ?seg @ js ''/undefined''"
    by simp
  show ?thesis
    by (simp only: q d getDependencyAndVersion_def Let_def nolatest name rep if_False)
qed

text \<open>The theorem at \<^verbatim>\<open>@foo@1.0\<close>: the name is \<^verbatim>\<open>@foo/undefined\<close>.\<close>

theorem getDependencyAndVersion_scope_undefined_witness:
  "ch CHR ''@'' \<notin> set (js ''foo'') \<and> ch CHR ''/'' \<notin> set (js ''foo'')
   \<and> ch CHR ''/'' \<notin> set (js ''1.0'')
   \<and> getDependencyAndVersion (js ''@foo@1.0'') =
       Inr \<lparr>dependency = js ''@foo/undefined'', version = js ''@foo@1.0''\<rparr>"
proof -
  have a: "ch CHR ''@'' \<notin> set (js ''foo'')" and b: "ch CHR ''/'' \<notin> set (js ''foo'')"
    and c: "ch CHR ''/'' \<notin> set (js ''1.0'')" by simp_all
  have d: "decodeURIComponent (js ''@foo@1.0'') = Inr (js ''@foo@1.0'')"
    by (simp add: decodeURIComponent_def)
  show ?thesis
    using a b c d getDependencyAndVersion_scope_undefined[OF a b c]
    by (simp add: lineTerminator_def)
qed

text \<open>
  Claim C9 as stated (every such query gets the name \<^verbatim>\<open>@s/undefined\<close>) fails at
  \<^verbatim>\<open>@foo@%\<close>, where the parser raises \<^verbatim>\<open>URIError\<close>, and at \<^verbatim>\<open>@foo@1\<close>, a line feed,
  \<^verbatim>\<open>2\<close>, where the name keeps the line feed and the \<^verbatim>\<open>2\<close>.
\<close>

theorem getDependencyAndVersion_scope_undefined_counterexample:
  "getDependencyAndVersion (js ''@foo@%'') = Inl URIError
   \<and> getDependencyAndVersion (js ''@foo@1'' @ [0x0A] @ js ''2'') =
       Inr \<lparr>dependency = js ''@foo'' @ [0x0A] @ js ''2/undefined'',
            version = js ''@foo@1'' @ [0x0A] @ js ''2''\<rparr>"
  by (simp add: getDependencyAndVersion_def getDependencyName_def startsWith_def shift_def
      toString_def startsWithDigit_def decodeURIComponent_def lineTerminator_def)

section \<open>Properties of the inclusion predicate\<close>

text \<open>
  The code's predicate is the specification's one, or the path ends with the text
  \<^verbatim>\<open>package.json\<close>: it keeps everything the specification keeps, and more.
\<close>

lemma joinWith_last: "xs \<noteq> [] \<Longrightarrow> \<exists>pre. joinWith sep xs = pre @ last xs"
proof (induction sep xs rule: joinWith.induct)
  case (1 sep)
  then show ?case by simp
next
  case (2 sep x)
  then show ?case by simp
next
  case (3 sep x y ys)
  then obtain pre where "joinWith sep (y # ys) = pre @ last (y # ys)" by auto
  then have "joinWith sep (x # y # ys) = (x @ sep @ pre) @ last (x # y # ys)" by simp
  then show ?case by blast
qed

lemma endsWith_append: "endsWith (pre @ t) t"
  by (simp add: endsWith_def)

lemma endsWith_basename: "endsWith p (basename p)"
proof -
  obtain pre where "joinWith [ch CHR ''/''] (String_split (ch CHR ''/'') p)
                      = pre @ last (String_split (ch CHR ''/'') p)"
    using joinWith_last[OF String_split_nonempty] by blast
  then have "p = pre @ basename p" by (simp add: joinWith_split basename_def)
  then show ?thesis using endsWith_append[of pre "basename p"] by simp
qed

lemma isFileValid_iff:
  "isFileValid p = (spec_isFileValid p \<or> endsWith p (js ''package.json''))"
proof -
  have "basename p = js ''package.json'' \<Longrightarrow> endsWith p (js ''package.json'')"
    using endsWith_basename[of p] by simp
  then show ?thesis
    by (auto simp: isFileValid_def spec_isFileValid_def TYPE_ONLY_DIRECTORIES_def)
qed

text \<open>
  Claim C5 at a file named \<^verbatim>\<open>notpackage.json\<close>: the code keeps it (the path ends with the
  text \<^verbatim>\<open>package.json\<close>), the specification's predicate does not (the file name is not
  exactly \<^verbatim>\<open>package.json\<close>).
\<close>

theorem isFileValid_keeps_suffix_package_json:
  "isFileValid (js ''/tmp/5f3a91/node_modules/foo/notpackage.json'')
   \<and> \<not> spec_isFileValid (js ''/tmp/5f3a91/node_modules/foo/notpackage.json'')"
  by (simp add: isFileValid_def spec_isFileValid_def TYPE_ONLY_DIRECTORIES_def endsWith_def
      startsWith_def basename_def)

section \<open>Arrays\<close>

lemma Array_indexOf_ge: "- 1 \<le> Array_indexOf xs x"
  by (induction xs) (auto simp: Let_def)

lemma Array_indexOf_mem: "(- 1 < Array_indexOf xs x) = (x \<in> set xs)"
proof (induction xs)
  case Nil
  then show ?case by simp
next
  case (Cons y ys)
  then show ?case using Array_indexOf_ge[of ys x] by (auto simp: Let_def)
qed

section \<open>Properties of the typings filter\<close>

lemmas json_eval = hasTypings_def JSON_parse_def lexStep_def startStep_def finishNumber_def
  numberStep_def escapeStep_def lexEnd_def numberToken_def isWhitespace_def isDigit_def
  isExponentMark_def isHex_def hexVal_def parseStep_def valueStep_def keyStep_def
  complete_def closeArray_def closeObject_def getProperty_def truthy_def numberIsZero_def

lemmas path_eval = path_join_def path_normalize_def path_dirname_def startsWith_def endsWith_def

lemma obj_set_fresh: "k \<notin> fst ` set obj \<Longrightarrow> obj_set obj k v = obj @ [(k, v)]"
  by (induction obj) auto

text \<open>The second loop of \<^verbatim>\<open>cleanFiles\<close> appends the kept entries in their order.\<close>

lemma fold_keep:
  assumes "distinct (map fst fs)"
  shows "set xs \<subseteq> set fs \<Longrightarrow> distinct (map fst (acc @ xs)) \<Longrightarrow>
         fold (\<lambda>p newFiles. if K p then (case map_of fs p of None \<Rightarrow> newFiles
                                         | Some entry \<Rightarrow> obj_set newFiles p entry)
                              else newFiles) (map fst xs) acc
         = acc @ filter (\<lambda>pe. K (fst pe)) xs"
proof (induction xs arbitrary: acc)
  case Nil
  then show ?case by simp
next
  case (Cons x xs)
  obtain p e where x: "x = (p, e)" by (cases x)
  with Cons.prems(1) assms have look: "map_of fs p = Some e" by simp
  from Cons.prems(2) x have fresh: "p \<notin> fst ` set acc" by auto
  show ?case
  proof (cases "K p")
    case True
    have d: "distinct (map fst ((acc @ [(p, e)]) @ xs))" using Cons.prems(2) x by simp
    have s: "set xs \<subseteq> set fs" using Cons.prems(1) by simp
    show ?thesis
      using Cons.IH[OF s d] True x look obj_set_fresh[OF fresh] by simp
  next
    case False
    have d: "distinct (map fst (acc @ xs))" using Cons.prems(2) x by simp
    have s: "set xs \<subseteq> set fs" using Cons.prems(1) by simp
    show ?thesis using Cons.IH[OF s d] False x by simp
  qed
qed

lemma cleanFiles_filter:
  assumes "distinct (map fst fs)"
  shows "cleanFiles fs r = filter (\<lambda>pe. kept fs r (fst pe)) fs"
proof -
  let ?root = "path_join r (js ''package.json'')"
  let ?valid = "filter (validDependency fs ?root) (map fst fs)"
  let ?K = "\<lambda>p. endsWith p (js ''.ts'') \<or> - 1 < Array_indexOf ?valid p"
  have "fold (\<lambda>p newFiles. if ?K p then (case map_of fs p of None \<Rightarrow> newFiles
                                         | Some entry \<Rightarrow> obj_set newFiles p entry)
                              else newFiles) (map fst fs) []
         = [] @ filter (\<lambda>pe. ?K (fst pe)) fs"
    using assms by (intro fold_keep) simp_all
  moreover have "filter (\<lambda>pe. ?K (fst pe)) fs = filter (\<lambda>pe. kept fs r (fst pe)) fs"
    by (rule filter_cong) (auto simp: Array_indexOf_mem kept_def)
  ultimately show ?thesis
    by (simp add: cleanFiles_def Object_keys_def Let_def)
qed

lemma kept_iff:
  assumes "distinct (map fst fs)" and "(p, e) \<in> set fs"
  shows "kept fs r p =
           (endsWith p (js ''.ts'') \<or> p = path_join r (js ''package.json'')
            \<or> (endsWith p (js ''/package.json'')
                \<and> (hasTypings (code e)
                    \<or> (\<exists>q \<in> fst ` set fs. startsWith q (path_dirname p) \<and> endsWith q (js ''.ts'')))))"
proof -
  from assms have "map_of fs p = Some e" by simp
  then show ?thesis
    by (auto simp: kept_def validDependency_def list_ex_iff Object_keys_def)
qed

lemma cleanFiles_mem:
  assumes "distinct (map fst fs)"
  shows "((p, e) \<in> set (cleanFiles fs r)) = ((p, e) \<in> set fs \<and> kept fs r p)"
  by (simp add: cleanFiles_filter[OF assms])

lemma cleanFiles_distinct:
  assumes "distinct (map fst fs)"
  shows "distinct (map fst (cleanFiles fs r))"
  by (simp add: cleanFiles_filter[OF assms] assms distinct_map_filter)

subsection \<open>C4: what the filter keeps\<close>

text \<open>
  Claim C4, as the code has it. For a mapping \<open>fs\<close> and an entry \<open>(p, e)\<close> of it:
  the result holds only entries of \<open>fs\<close>; the entry is kept when \<open>p\<close> ends in \<^verbatim>\<open>.ts\<close>, when
  \<open>p\<close> is the root manifest (whatever its content), when \<open>p\<close> ends in \<^verbatim>\<open>/package.json\<close> and
  its content parses as JSON with a truthy \<^verbatim>\<open>typings\<close> or \<^verbatim>\<open>types\<close> member, and when \<open>p\<close>
  ends in \<^verbatim>\<open>/package.json\<close> and a \<^verbatim>\<open>.ts\<close> path of \<open>fs\<close> lies under its directory; and an
  entry that is kept is one of: a \<^verbatim>\<open>.ts\<close> path, the root manifest, or a \<^verbatim>\<open>/package.json\<close>
  with such a member or with a \<^verbatim>\<open>.ts\<close> path of \<open>fs\<close> that has its directory as a prefix.
  Content that is not JSON raises nothing: \<open>hasTypings\<close> is false on it.
\<close>

theorem cleanFiles_retains:
  assumes "distinct (map fst fs)" and "(p, e) \<in> set fs"
  shows "set (cleanFiles fs r) \<subseteq> set fs
    \<and> (endsWith p (js ''.ts'') \<longrightarrow> (p, e) \<in> set (cleanFiles fs r))
    \<and> (p = path_join r (js ''package.json'') \<longrightarrow> (p, e) \<in> set (cleanFiles fs r))
    \<and> (endsWith p (js ''/package.json'') \<and> hasTypings (code e)
        \<longrightarrow> (p, e) \<in> set (cleanFiles fs r))
    \<and> (endsWith p (js ''/package.json'')
        \<and> (\<exists>q \<in> fst ` set fs. endsWith q (js ''.ts'') \<and> nestedUnder q (path_dirname p))
        \<longrightarrow> (p, e) \<in> set (cleanFiles fs r))
    \<and> ((p, e) \<in> set (cleanFiles fs r) \<longrightarrow>
          endsWith p (js ''.ts'') \<or> p = path_join r (js ''package.json'')
          \<or> (endsWith p (js ''/package.json'')
              \<and> (hasTypings (code e)
                  \<or> (\<exists>q \<in> fst ` set fs. endsWith q (js ''.ts'')
                                          \<and> startsWith q (path_dirname p)))))"
proof -
  have "((p, e) \<in> set (cleanFiles fs r)) = kept fs r p"
    using cleanFiles_mem[OF assms(1), of p e r] assms(2) by simp
  then have iff: "((p, e) \<in> set (cleanFiles fs r)) =
           (endsWith p (js ''.ts'') \<or> p = path_join r (js ''package.json'')
            \<or> (endsWith p (js ''/package.json'')
                \<and> (hasTypings (code e)
                    \<or> (\<exists>q \<in> fst ` set fs. startsWith q (path_dirname p) \<and> endsWith q (js ''.ts'')))))"
    by (simp only: kept_iff[OF assms, of r])
  have sub: "set (cleanFiles fs r) \<subseteq> set fs"
    by (simp add: cleanFiles_filter[OF assms(1)])
  have ts: "endsWith p (js ''.ts'') \<longrightarrow> (p, e) \<in> set (cleanFiles fs r)"
    using iff by blast
  have root: "p = path_join r (js ''package.json'') \<longrightarrow> (p, e) \<in> set (cleanFiles fs r)"
    using iff by blast
  have decl: "endsWith p (js ''/package.json'') \<and> hasTypings (code e)
                \<longrightarrow> (p, e) \<in> set (cleanFiles fs r)"
    using iff by blast
  have nest: "endsWith p (js ''/package.json'')
        \<and> (\<exists>q \<in> fst ` set fs. endsWith q (js ''.ts'') \<and> nestedUnder q (path_dirname p))
        \<longrightarrow> (p, e) \<in> set (cleanFiles fs r)"
    using iff unfolding nestedUnder_def by blast
  have only: "(p, e) \<in> set (cleanFiles fs r) \<longrightarrow>
          endsWith p (js ''.ts'') \<or> p = path_join r (js ''package.json'')
          \<or> (endsWith p (js ''/package.json'')
              \<and> (hasTypings (code e)
                  \<or> (\<exists>q \<in> fst ` set fs. endsWith q (js ''.ts'')
                                          \<and> startsWith q (path_dirname p))))"
    using iff by blast
  from sub ts root decl nest only show ?thesis by (intro conjI)
qed

text \<open>
  The theorem on the example tree with root \<^verbatim>\<open>/r/lodash\<close>: the manifest of \<^verbatim>\<open>/r/b\<close>, which
  is not JSON, is kept for the declaration file under \<^verbatim>\<open>/r/b\<close>, and the manifest of
  \<^verbatim>\<open>/r/c\<close> is dropped.
\<close>

theorem cleanFiles_retains_witness:
  "distinct (map fst example_files)
   \<and> (js ''/r/b/package.json'', \<lparr>code = js ''not json''\<rparr>) \<in> set example_files
   \<and> (js ''/r/c/package.json'', \<lparr>code = js ''{}''\<rparr>) \<in> set example_files
   \<and> (js ''/r/b/package.json'', \<lparr>code = js ''not json''\<rparr>)
        \<in> set (cleanFiles example_files (js ''/r/lodash''))
   \<and> (js ''/r/c/package.json'', \<lparr>code = js ''{}''\<rparr>)
        \<notin> set (cleanFiles example_files (js ''/r/lodash''))"
proof -
  let ?b = "js ''/r/b/package.json''" and ?eb = "\<lparr>code = js ''not json''\<rparr>"
  let ?c = "js ''/r/c/package.json''" and ?ec = "\<lparr>code = js ''{}''\<rparr>"
  let ?r = "js ''/r/lodash''"
  have d: "distinct (map fst example_files)" by (simp add: example_files_def)
  have mb: "(?b, ?eb) \<in> set example_files" by (simp add: example_files_def)
  have mc: "(?c, ?ec) \<in> set example_files" by (simp add: example_files_def)
  have nested: "endsWith ?b (js ''/package.json'')
      \<and> (\<exists>q \<in> fst ` set example_files. endsWith q (js ''.ts'') \<and> nestedUnder q (path_dirname ?b))"
    by (simp add: example_files_def nestedUnder_def path_eval)
  have "endsWith ?b (js ''/package.json'')
        \<and> (\<exists>q \<in> fst ` set example_files. endsWith q (js ''.ts'') \<and> nestedUnder q (path_dirname ?b))
        \<longrightarrow> (?b, ?eb) \<in> set (cleanFiles example_files ?r)"
    using cleanFiles_retains[OF d mb, of ?r] by (elim conjE)
  with nested have inb: "(?b, ?eb) \<in> set (cleanFiles example_files ?r)" by (rule rev_mp)
  have none: "\<not> (endsWith ?c (js ''.ts'') \<or> ?c = path_join ?r (js ''package.json'')
          \<or> (endsWith ?c (js ''/package.json'')
              \<and> (hasTypings (code ?ec)
                  \<or> (\<exists>q \<in> fst ` set example_files. endsWith q (js ''.ts'')
                                          \<and> startsWith q (path_dirname ?c)))))"
    by (simp add: example_files_def path_eval json_eval)
  have only: "(?c, ?ec) \<in> set (cleanFiles example_files ?r) \<longrightarrow>
          endsWith ?c (js ''.ts'') \<or> ?c = path_join ?r (js ''package.json'')
          \<or> (endsWith ?c (js ''/package.json'')
              \<and> (hasTypings (code ?ec)
                  \<or> (\<exists>q \<in> fst ` set example_files. endsWith q (js ''.ts'')
                                          \<and> startsWith q (path_dirname ?c))))"
    using cleanFiles_retains[OF d mc, of ?r] by (elim conjE)
  have outc: "(?c, ?ec) \<notin> set (cleanFiles example_files ?r)"
  proof
    assume "(?c, ?ec) \<in> set (cleanFiles example_files ?r)"
    with only have "endsWith ?c (js ''.ts'') \<or> ?c = path_join ?r (js ''package.json'')
          \<or> (endsWith ?c (js ''/package.json'')
              \<and> (hasTypings (code ?ec)
                  \<or> (\<exists>q \<in> fst ` set example_files. endsWith q (js ''.ts'')
                                          \<and> startsWith q (path_dirname ?c))))"
      by (rule mp)
    with none show False by (rule notE)
  qed
  from d mb mc inb outc show ?thesis by (intro conjI)
qed

text \<open>
  Claim C4 as stated fails twice. The manifest \<^verbatim>\<open>{"types":""}\<close> declares a \<^verbatim>\<open>types\<close>
  field, and the filter drops it: the empty string is falsy. The manifest of \<^verbatim>\<open>/r/foo\<close>
  declares nothing and has no \<^verbatim>\<open>.ts\<close> path under its directory, and the filter keeps it:
  \<^verbatim>\<open>/r/foobar/index.d.ts\<close> starts with the text \<^verbatim>\<open>/r/foo\<close>.
\<close>

theorem cleanFiles_retains_counterexample:
  "spec_cleanFiles_keeps example_empty_types (js ''/r/root'')
     (js ''/r/baz/package.json'') \<lparr>code = js ''{\"types\":\"\"}''\<rparr>
   \<and> cleanFiles example_empty_types (js ''/r/root'') = []
   \<and> \<not> spec_cleanFiles_keeps example_sibling (js ''/r/root'')
         (js ''/r/foo/package.json'') \<lparr>code = js ''{}''\<rparr>
   \<and> cleanFiles example_sibling (js ''/r/root'') = example_sibling"
proof -
  have a: "spec_cleanFiles_keeps example_empty_types (js ''/r/root'')
     (js ''/r/baz/package.json'') \<lparr>code = js ''{\"types\":\"\"}''\<rparr>"
    by (simp add: spec_cleanFiles_keeps_def declaresTypings_def example_empty_types_def
        json_eval path_eval)
  have b: "cleanFiles example_empty_types (js ''/r/root'') = []"
    by (simp add: cleanFiles_def validDependency_def Object_keys_def example_empty_types_def
        json_eval path_eval)
  have c: "\<not> spec_cleanFiles_keeps example_sibling (js ''/r/root'')
         (js ''/r/foo/package.json'') \<lparr>code = js ''{}''\<rparr>"
    by (simp add: spec_cleanFiles_keeps_def declaresTypings_def example_sibling_def
        nestedUnder_def Object_keys_def json_eval path_eval)
  have d: "cleanFiles example_sibling (js ''/r/root'') = example_sibling"
    by (simp add: cleanFiles_def validDependency_def Object_keys_def example_sibling_def
        json_eval path_eval)
  from a b c d show ?thesis by (intro conjI)
qed

subsection \<open>C10: the result is a part of the input, and filtering again changes nothing\<close>

text \<open>
  Claim C10. For every mapping \<open>fs\<close> (an object: no key twice) and every root path \<open>r\<close>,
  every key of \<open>cleanFiles fs r\<close> is a key of \<open>fs\<close> with the same entry, and
  \<open>cleanFiles (cleanFiles fs r) r = cleanFiles fs r\<close>.
\<close>

theorem cleanFiles_submapping_idempotent:
  assumes "distinct (map fst fs)"
  shows "map_of (cleanFiles fs r) \<subseteq>\<^sub>m map_of fs
         \<and> cleanFiles (cleanFiles fs r) r = cleanFiles fs r"
proof -
  let ?g = "cleanFiles fs r"
  have dg: "distinct (map fst ?g)" using assms by (rule cleanFiles_distinct)
  have sub: "set ?g \<subseteq> set fs" by (simp add: cleanFiles_filter[OF assms])
  have le: "map_of ?g \<subseteq>\<^sub>m map_of fs"
    unfolding map_le_def
  proof
    fix p assume "p \<in> dom (map_of ?g)"
    then obtain e where g: "map_of ?g p = Some e" by auto
    then have "(p, e) \<in> set ?g" by (rule map_of_SomeD)
    with sub have "(p, e) \<in> set fs" by blast
    with assms have "map_of fs p = Some e" by simp
    with g show "map_of ?g p = map_of fs p" by simp
  qed
  have all: "kept ?g r (fst pe)" if pe: "pe \<in> set ?g" for pe
  proof -
    obtain p e where [simp]: "pe = (p, e)" by (cases pe)
    from pe have in_g: "(p, e) \<in> set ?g" by simp
    with sub have in_f: "(p, e) \<in> set fs" by blast
    from in_g have kf: "kept fs r p" using cleanFiles_mem[OF assms] by simp
    have "kept ?g r p"
      unfolding kept_iff[OF dg in_g]
    proof -
      from kf consider (a) "endsWith p (js ''.ts'')" | (b) "p = path_join r (js ''package.json'')"
        | (c) "endsWith p (js ''/package.json'')" "hasTypings (code e)"
        | (d) q where "endsWith p (js ''/package.json'')" "q \<in> fst ` set fs"
            "startsWith q (path_dirname p)" "endsWith q (js ''.ts'')"
        unfolding kept_iff[OF assms in_f] by blast
      then show "endsWith p (js ''.ts'') \<or> p = path_join r (js ''package.json'')
            \<or> (endsWith p (js ''/package.json'')
                \<and> (hasTypings (code e)
                    \<or> (\<exists>q \<in> fst ` set ?g. startsWith q (path_dirname p) \<and> endsWith q (js ''.ts''))))"
      proof cases
        case d
        from d(2) obtain e' where qe: "(q, e') \<in> set fs" by auto
        with d(4) have "kept fs r q" by (simp add: kept_def)
        with qe have "(q, e') \<in> set ?g" using cleanFiles_mem[OF assms] by simp
        then have "q \<in> fst ` set ?g" by force
        with d show ?thesis by blast
      qed auto
    qed
    then show ?thesis by simp
  qed
  have "cleanFiles ?g r = filter (\<lambda>pe. kept ?g r (fst pe)) ?g"
    using dg by (rule cleanFiles_filter)
  also have "\<dots> = ?g" using all by (simp add: filter_id_conv)
  finally show ?thesis using le by simp
qed

text \<open>
  The theorem on the example tree: the filter drops the manifest of \<^verbatim>\<open>/r/c\<close> and keeps
  the rest, and filtering the result again gives the result.
\<close>

theorem cleanFiles_submapping_idempotent_witness:
  "distinct (map fst example_files)
   \<and> cleanFiles example_files (js ''/r/lodash'') = example_cleaned
   \<and> map_of example_cleaned \<subseteq>\<^sub>m map_of example_files
   \<and> cleanFiles example_cleaned (js ''/r/lodash'') = example_cleaned"
proof -
  have d: "distinct (map fst example_files)" by (simp add: example_files_def)
  have v: "cleanFiles example_files (js ''/r/lodash'') = example_cleaned"
    by (simp add: cleanFiles_def validDependency_def Object_keys_def example_files_def
        example_cleaned_def json_eval path_eval)
  from cleanFiles_submapping_idempotent[OF d, of "js ''/r/lodash''"]
  have "map_of example_cleaned \<subseteq>\<^sub>m map_of example_files
        \<and> cleanFiles example_cleaned (js ''/r/lodash'') = example_cleaned"
    by (simp only: v)
  with d v show ?thesis by (intro conjI) simp_all
qed

section \<open>Properties of the response packager\<close>

subsection \<open>The length of a serialized mapping\<close>

lemma quoteUnits_plain: "list_all plainUnit s \<Longrightarrow> quoteUnits s = s"
  by (induction s)
     (auto simp: plainUnit_def isLeadSurrogate_def isTrailSurrogate_def escapeUnit_def)

lemma list_all_replicate: "P x \<Longrightarrow> list_all P (replicate n x)"
  by (simp add: list_all_iff)

lemma length_stringify_string:
  "list_all plainUnit s \<Longrightarrow> length (stringify_string s) = length s + 2"
  by (simp add: stringify_string_def quoteUnits_plain)

lemma length_stringify_ModuleEntry:
  "list_all plainUnit (code (module m)) \<Longrightarrow>
   length (stringify_ModuleEntry m) = length (code (module m)) + 22"
  by (simp add: stringify_ModuleEntry_def stringify_FileEntry_def length_stringify_string)

lemmas length_eval = length_stringify_string length_stringify_ModuleEntry plainUnit_def
  list_all_replicate

subsection \<open>What the loop of \<^verbatim>\<open>dropFiles\<close> does\<close>

text \<open>From a state in which the body changes nothing, the loop never returns.\<close>

lemma loop_stuck:
  assumes "dropFiles_loop fs paths result index = Some y"
  shows "\<not> stuck fs paths result index"
proof (rule dropFiles_loop.raw_induct
         [where P = "\<lambda>fs paths result index y. \<not> stuck fs paths result index", OF _ assms])
  fix loop fs paths result index and y :: "IModuleResult \<times> nat"
  assume IH: "\<And>fs paths result index y. loop fs paths result index = Some y
                \<Longrightarrow> \<not> stuck fs paths result index"
    and step: "(if rat_of_nat (length (stringify_files result)) < MAX_RES_SIZE \<and> index < length paths
                then loop fs paths
                       (case map_of fs (paths ! index) of
                          None \<Rightarrow> result
                        | Some entry \<Rightarrow> obj_set result (paths ! index) entry)
                       index
                else Some (result, index)) = Some y"
  show "\<not> stuck fs paths result index"
  proof
    assume st: "stuck fs paths result index"
    with step have "loop fs paths result index = Some y" by (simp add: stuck_def)
    from IH[OF this] st show False by simp
  qed
qed

text \<open>The first round of the loop puts the first entry into the empty result.\<close>

lemma dropFiles_loop_first:
  "dropFiles_loop ((k, v) # rest) (Object_keys ((k, v) # rest)) [] 0
     = dropFiles_loop ((k, v) # rest) (Object_keys ((k, v) # rest)) [(k, v)] 0"
proof -
  have "rat_of_nat (length (stringify_files [])) < MAX_RES_SIZE"
    by (simp add: stringify_files_def MAX_RES_SIZE_def)
  then show ?thesis by (subst dropFiles_loop.simps) (simp add: Object_keys_def)
qed

text \<open>
  On a non-empty mapping \<^verbatim>\<open>dropFiles\<close> has two behaviours. When the first entry alone
  serializes below the ceiling, the second round assigns the same entry again, and so
  does every round after it: the function never returns.
\<close>

lemma dropFiles_diverges:
  assumes "rat_of_nat (length (stringify_files [(k, v)])) < MAX_RES_SIZE"
  shows "dropFiles ((k, v) # rest) = None"
proof -
  let ?fs = "(k, v) # rest"
  have "dropFiles_loop ?fs (Object_keys ?fs) [(k, v)] 0 = None"
  proof (cases "dropFiles_loop ?fs (Object_keys ?fs) [(k, v)] 0")
    case None
    then show ?thesis .
  next
    case (Some y)
    from loop_stuck[OF Some] assms show ?thesis by (simp add: Object_keys_def stuck_def)
  qed
  then show ?thesis by (simp add: dropFiles_def dropFiles_loop_first)
qed

text \<open>
  When the first entry alone reaches the ceiling the loop stops after one round, and the
  result is that entry with \<^verbatim>\<open>droppedFileCount\<close> \<open>index + 1 = 1\<close>.
\<close>

lemma dropFiles_first:
  assumes "\<not> rat_of_nat (length (stringify_files [(k, v)])) < MAX_RES_SIZE"
  shows "dropFiles ((k, v) # rest) = Some \<lparr>files = [(k, v)], droppedFileCount = Some 1\<rparr>"
proof -
  let ?fs = "(k, v) # rest"
  have "dropFiles_loop ?fs (Object_keys ?fs) [(k, v)] 0 = Some ([(k, v)], 0)"
    using assms by (subst dropFiles_loop.simps) simp
  then show ?thesis by (simp add: dropFiles_def dropFiles_loop_first)
qed

subsection \<open>C1, C2, C3 on the examples\<close>

lemma big_entry_length: "length (stringify_files [big_entry]) = 6081779"
  by (simp add: stringify_files_def big_entry_def length_eval)

lemma big_entry_first:
  "dropFiles (big_entry # rest) = Some \<lparr>files = [big_entry], droppedFileCount = Some 1\<rparr>"
proof -
  obtain k m where km: "big_entry = (k, m)" by (cases big_entry)
  have "length (stringify_files [(k, m)]) = 6081779"
    using big_entry_length by (simp only: km)
  then have "\<not> rat_of_nat (length (stringify_files [(k, m)])) < MAX_RES_SIZE"
    by (simp add: MAX_RES_SIZE_def)
  then have "dropFiles ((k, m) # rest) = Some \<lparr>files = [(k, m)], droppedFileCount = Some 1\<rparr>"
    by (rule dropFiles_first)
  then show ?thesis by (simp only: km)
qed

text \<open>
  Claim C1 at a mapping with one declaration file of 6081741 code units. The candidate
  envelope is above the ceiling, \<^verbatim>\<open>dropFiles\<close> drops nothing, and the envelope the handler
  serializes (\<^verbatim>\<open>status\<close>, \<^verbatim>\<open>files\<close>, \<^verbatim>\<open>droppedFileCount\<close>) has 6081824 code units, above
  the ceiling; so is the envelope of \<^verbatim>\<open>status\<close> and the returned \<^verbatim>\<open>files\<close> alone.
\<close>

theorem dropFilesIfNeeded_exceeds_ceiling:
  "dropFilesIfNeeded example_one_big
     = Some \<lparr>files = example_one_big, droppedFileCount = Some 1\<rparr>
   \<and> length (stringify_ok example_one_big (Some 1)) = 6081824
   \<and> MAX_RES_SIZE < rat_of_nat (length (stringify_ok example_one_big (Some 1)))
   \<and> MAX_RES_SIZE < rat_of_nat (length (stringify_ok example_one_big None))"
proof -
  have d: "dropFiles example_one_big = Some \<lparr>files = example_one_big, droppedFileCount = Some 1\<rparr>"
    unfolding example_one_big_def by (rule big_entry_first)
  have cand: "MAX_RES_SIZE < rat_of_nat (length (stringify_ok example_one_big None))"
    by (simp add: stringify_ok_def example_one_big_def big_entry_length MAX_RES_SIZE_def)
  have r: "dropFilesIfNeeded example_one_big
     = Some \<lparr>files = example_one_big, droppedFileCount = Some 1\<rparr>"
    using cand d by (simp add: dropFilesIfNeeded_def)
  have l: "length (stringify_ok example_one_big (Some 1)) = 6081824"
    by (simp add: stringify_ok_def example_one_big_def big_entry_length decimal.simps)
  have "MAX_RES_SIZE < rat_of_nat (length (stringify_ok example_one_big (Some 1)))"
    by (simp only: l) (simp add: MAX_RES_SIZE_def)
  with r l cand show ?thesis by (intro conjI)
qed

text \<open>
  Claim C3 at the same file followed by two small ones. The returned mapping holds the
  first entry only, so two entries of the input are not in it, and \<^verbatim>\<open>droppedFileCount\<close>
  is 1.
\<close>

theorem dropFilesIfNeeded_count:
  "dropFilesIfNeeded example_big_first = Some \<lparr>files = [big_entry], droppedFileCount = Some 1\<rparr>
   \<and> length (filter (\<lambda>p. p \<notin> set (Object_keys [big_entry])) (Object_keys example_big_first)) = 2"
proof -
  have d: "dropFiles example_big_first = Some \<lparr>files = [big_entry], droppedFileCount = Some 1\<rparr>"
    unfolding example_big_first_def by (rule big_entry_first)
  have "length (stringify_files example_big_first) = 6081863"
    by (simp add: stringify_files_def example_big_first_def big_entry_def length_eval)
  then have cand: "MAX_RES_SIZE < rat_of_nat (length (stringify_ok example_big_first None))"
    by (simp add: stringify_ok_def MAX_RES_SIZE_def)
  have r: "dropFilesIfNeeded example_big_first
     = Some \<lparr>files = [big_entry], droppedFileCount = Some 1\<rparr>"
    using cand d by (simp add: dropFilesIfNeeded_def)
  have n: "length (filter (\<lambda>p. p \<notin> set (Object_keys [big_entry])) (Object_keys example_big_first)) = 2"
    by (simp add: example_big_first_def big_entry_def Object_keys_def)
  from r n show ?thesis by (intro conjI)
qed

text \<open>
  Claim C2 at a mapping of two files of 3100000 code units each. The candidate envelope
  is above the ceiling, so \<^verbatim>\<open>dropFilesIfNeeded\<close> calls \<^verbatim>\<open>dropFiles\<close>; the first entry alone
  is below the ceiling, and the loop never ends.
\<close>

theorem dropFiles_never_returns:
  "dropFiles example_two_halves = None \<and> dropFilesIfNeeded example_two_halves = None"
proof -
  let ?a = "\<lparr>module = \<lparr>code = replicate 3100000 (ch CHR ''x'')\<rparr>\<rparr>"
  have "length (stringify_files [(js ''/a.d.ts'', ?a)]) = 3100034"
    by (simp add: stringify_files_def length_eval)
  then have small: "rat_of_nat (length (stringify_files [(js ''/a.d.ts'', ?a)])) < MAX_RES_SIZE"
    by (simp add: MAX_RES_SIZE_def)
  have d: "dropFiles example_two_halves = None"
    using dropFiles_diverges[OF small] by (simp add: example_two_halves_def)
  have "length (stringify_files example_two_halves) = 6200067"
    by (simp add: stringify_files_def example_two_halves_def length_eval)
  then have cand: "MAX_RES_SIZE < rat_of_nat (length (stringify_ok example_two_halves None))"
    by (simp add: stringify_ok_def MAX_RES_SIZE_def)
  have "dropFilesIfNeeded example_two_halves = None"
    using cand d by (simp add: dropFilesIfNeeded_def)
  with d show ?thesis by (intro conjI)
qed

section \<open>Properties of the request handler\<close>

lemma dropFilesIfNeeded_empty:
  "dropFilesIfNeeded [] = Some \<lparr>files = [], droppedFileCount = None\<rparr>"
  by (simp add: dropFilesIfNeeded_def stringify_ok_def stringify_files_def MAX_RES_SIZE_def)

lemma stringify_ok_empty: "stringify_ok [] None = js ''{\"status\":\"ok\",\"files\":{}}''"
  by (simp add: stringify_ok_def stringify_files_def)

subsection \<open>A request that succeeds\<close>

text \<open>
  The handler in a world where the installer leaves \<^verbatim>\<open>lodash\<close> with a manifest, a
  declaration file, a readme and a test directory: the response holds the manifest and
  the declaration file under their package-relative paths, and the staging directory is
  removed.
\<close>

lemma scenario_lodash:
  "handler example_env_lodash (Single (js ''lodash'')) =
     Some (\<lparr>statusCode = 200,
            headers = [(js ''Content-Type'', js ''application/json''),
                       (js ''Access-Control-Allow-Origin'', js ''*''),
                       (js ''Cache-Control'', js ''public, max-age=31536000'')],
            body = js ''{\"status\":\"ok\",\"files\":{\"/lodash/package.json\":{\"module\":{\"code\":\"{}\"}},\"/lodash/index.d.ts\":{\"module\":{\"code\":\"export {}\"}}}}''\<rparr>,
           [Exec (installCommand (js ''c0ffee42'') (js ''lodash@latest'')),
            Rimraf (js ''/tmp/c0ffee42'')])"
proof -
  have p: "getDependencyAndVersion (js ''lodash'')
             = Inr \<lparr>dependency = js ''lodash'', version = js ''latest''\<rparr>"
    by (simp add: getDependencyAndVersion_def startsWith_def)
  have r: "readDirectory w (js ''/tmp/c0ffee42/node_modules'')
             (Directory
                 [(js ''lodash'',
                   Directory
                     [(js ''package.json'', File (js ''{}'')),
                      (js ''index.d.ts'', File (js ''export {}'')),
                      (js ''README.md'', File (js ''lodash'')),
                      (js ''__tests__'', Directory [(js ''t.d.ts'', File (js ''export {}''))])])])
           = Inr [(js ''/tmp/c0ffee42/node_modules/lodash/package.json'', \<lparr>code = js ''{}''\<rparr>),
                  (js ''/tmp/c0ffee42/node_modules/lodash/index.d.ts'', \<lparr>code = js ''export {}''\<rparr>)]"
    for w
    by (simp add: readDirectory_def BLACKLISTED_DIRECTORIES_def isFileValid_def
        TYPE_ONLY_DIRECTORIES_def obj_spread_def path_eval)
  have c: "cleanFiles [(js ''/tmp/c0ffee42/node_modules/lodash/package.json'', \<lparr>code = js ''{}''\<rparr>),
                  (js ''/tmp/c0ffee42/node_modules/lodash/index.d.ts'', \<lparr>code = js ''export {}''\<rparr>)]
             (js ''/tmp/c0ffee42/node_modules/lodash'')
           = [(js ''/tmp/c0ffee42/node_modules/lodash/package.json'', \<lparr>code = js ''{}''\<rparr>),
                  (js ''/tmp/c0ffee42/node_modules/lodash/index.d.ts'', \<lparr>code = js ''export {}''\<rparr>)]"
    by (simp add: cleanFiles_def validDependency_def Object_keys_def path_eval)
  have d: "downloadDependencyTypings example_env_lodash (js ''lodash'') =
     (Inr [(js ''/lodash/package.json'', \<lparr>module = \<lparr>code = js ''{}''\<rparr>\<rparr>),
           (js ''/lodash/index.d.ts'', \<lparr>module = \<lparr>code = js ''export {}''\<rparr>\<rparr>)],
      [Exec (installCommand (js ''c0ffee42'') (js ''lodash@latest'')), Rimraf (js ''/tmp/c0ffee42'')])"
    by (simp only: downloadDependencyTypings_def p)
       (simp add: BLACKLISTED_DEPENDENCIES_def extractFiles_def example_env_lodash_def
          example_env_def decimal.simps Let_def r[simplified] c[simplified] withNoPrefix_def
          Object_keys_def startsWith_def)
  have s: "stringify_files [(js ''/lodash/package.json'', \<lparr>module = \<lparr>code = js ''{}''\<rparr>\<rparr>),
           (js ''/lodash/index.d.ts'', \<lparr>module = \<lparr>code = js ''export {}''\<rparr>\<rparr>)]
      = js ''{\"/lodash/package.json\":{\"module\":{\"code\":\"{}\"}},\"/lodash/index.d.ts\":{\"module\":{\"code\":\"export {}\"}}}''"
    by (simp add: stringify_files_def stringify_ModuleEntry_def stringify_FileEntry_def
        stringify_string_def escapeUnit_def isLeadSurrogate_def isTrailSurrogate_def)
  show ?thesis
    by (simp add: handler_def d[simplified] dropFilesIfNeeded_def stringify_ok_def s[simplified]
        MAX_RES_SIZE_def Let_def)
qed

subsection \<open>C7: the denylist\<close>

text \<open>
  Claim C7. For every world and every query that the parser reads as a dependency name
  on the denylist, \<^verbatim>\<open>downloadDependencyTypings\<close> returns the empty mapping with no effect at
  all: no shell command is run (no install, no staging directory) and nothing is removed.
  The handler answers 200 with the body \<^verbatim>\<open>{"status":"ok","files":{}}\<close>.
\<close>

theorem blacklisted_short_circuit:
  assumes "getDependencyAndVersion q = Inr parsed"
    and "dependency parsed \<in> set BLACKLISTED_DEPENDENCIES"
  shows "downloadDependencyTypings w q = (Inr [], [])
    \<and> handler w (Single q) =
        Some (\<lparr>statusCode = 200,
               headers = [(js ''Content-Type'', js ''application/json''),
                          (js ''Access-Control-Allow-Origin'', js ''*''),
                          (js ''Cache-Control'', js ''public, max-age=31536000'')],
               body = js ''{\"status\":\"ok\",\"files\":{}}''\<rparr>, [])"
proof -
  from assms(2) have bl: "- 1 < Array_indexOf BLACKLISTED_DEPENDENCIES (dependency parsed)"
    by (simp only: Array_indexOf_mem)
  with assms(1) have d: "downloadDependencyTypings w q = (Inr [], [])"
    by (simp add: downloadDependencyTypings_def)
  have "q \<noteq> []"
  proof
    assume "q = []"
    with assms(1) have "dependency parsed = []"
      by (auto simp: getDependencyAndVersion_def startsWith_def)
    with assms(2) show False by (simp add: BLACKLISTED_DEPENDENCIES_def)
  qed
  then have "handler w (Single q) =
        Some (\<lparr>statusCode = 200,
               headers = [(js ''Content-Type'', js ''application/json''),
                          (js ''Access-Control-Allow-Origin'', js ''*''),
                          (js ''Cache-Control'', js ''public, max-age=31536000'')],
               body = js ''{\"status\":\"ok\",\"files\":{}}''\<rparr>, [])"
    by (simp add: handler_def d dropFilesIfNeeded_empty stringify_ok_empty)
  with d show ?thesis by (intro conjI)
qed

text \<open>The theorem at the query \<^verbatim>\<open>react-scripts@3.4.1\<close>.\<close>

theorem blacklisted_short_circuit_witness:
  "getDependencyAndVersion (js ''react-scripts@3.4.1'')
     = Inr \<lparr>dependency = js ''react-scripts'', version = js ''3.4.1''\<rparr>
   \<and> js ''react-scripts'' \<in> set BLACKLISTED_DEPENDENCIES
   \<and> downloadDependencyTypings example_env (js ''react-scripts@3.4.1'') = (Inr [], [])
   \<and> handler example_env (Single (js ''react-scripts@3.4.1'')) =
        Some (\<lparr>statusCode = 200,
               headers = [(js ''Content-Type'', js ''application/json''),
                          (js ''Access-Control-Allow-Origin'', js ''*''),
                          (js ''Cache-Control'', js ''public, max-age=31536000'')],
               body = js ''{\"status\":\"ok\",\"files\":{}}''\<rparr>, [])"
proof -
  have p: "getDependencyAndVersion (js ''react-scripts@3.4.1'')
     = Inr \<lparr>dependency = js ''react-scripts'', version = js ''3.4.1''\<rparr>"
    by (simp add: getDependencyAndVersion_def getDependencyName_def startsWith_def shift_def
      toString_def startsWithDigit_def decodeURIComponent_def lineTerminator_def)
  have b: "dependency \<lparr>dependency = js ''react-scripts'', version = js ''3.4.1''\<rparr>
             \<in> set BLACKLISTED_DEPENDENCIES"
    by (simp add: BLACKLISTED_DEPENDENCIES_def)
  from blacklisted_short_circuit[OF p b, of example_env] p b show ?thesis by simp
qed

subsection \<open>C8: every failure is the error envelope\<close>






text \<open>Conversely, a response with status 422 is the response to a request that fails.\<close>

lemma handler_422_only_on_failure:
  assumes "handler w depQuery = Some (resp, fx)" and "statusCode resp = 422"
  shows "requestFails w depQuery"
proof (cases depQuery)
  case Absent
  then show ?thesis by (simp add: requestFails_def)
next
  case (Multiple qs)
  then show ?thesis by (simp add: requestFails_def)
next
  case (Single q)
  show ?thesis
  proof (cases "q = []")
    case True
    with Single show ?thesis by (simp add: requestFails_def)
  next
    case False
    show ?thesis
    proof (rule ccontr)
      assume nf: "\<not> requestFails w depQuery"
      with Single False obtain parsed where p: "getDependencyAndVersion q = Inr parsed"
        by (auto simp: requestFails_def split: sum.splits)
      have "\<exists>found gx. downloadDependencyTypings w q = (Inr found, gx)"
      proof (cases "dependency parsed \<in> set BLACKLISTED_DEPENDENCIES")
        case True
        then show ?thesis by (simp add: downloadDependencyTypings_def p Array_indexOf_mem)
      next
        case nb: False
        with nf Single False p obtain tree found where
          "exec w (installCommand (stagingLocation w parsed) (installQueryOf parsed)) = Inr tree"
          "readDirectory w (js ''/tmp/'' @ stagingLocation w parsed @ js ''/node_modules'') tree
             = Inr found"
          by (auto simp: requestFails_def split: sum.splits)
        with nb show ?thesis
          by (simp add: downloadDependencyTypings_def p Array_indexOf_mem extractFiles_def Let_def
              stagingLocation_def installQueryOf_def)
      qed
      then obtain found gx where "downloadDependencyTypings w q = (Inr found, gx)" by blast
      with assms Single False show False
        by (auto simp: handler_def Let_def split: option.splits)
    qed
  qed
qed

end
